theory Spec2Isabelle
  imports
    Complex_Main
    "HOL-Library.AList"
    "HOL-Library.Char_ord"
    "HOL-Library.List_Lexorder"
    "HOL-Library.Product_Lexorder"
begin

section \<open>footballapi: the reconciliation engine\<close>

text \<open>
  A shallow embedding of \<^verbatim>\<open>footballapi/normalize.py\<close> and \<^verbatim>\<open>footballapi/service.py\<close>.

  Conventions.
  \<^item> A Python \<^verbatim>\<open>str\<close> is a \<open>string\<close>; one \<open>char\<close> stands for one character of the
    Python string.
  \<^item> A Python \<^verbatim>\<open>float\<close> is a \<open>real\<close>: comparisons, \<^verbatim>\<open>min\<close> and \<^verbatim>\<open>max\<close> are exact on
    floats, the four operations are read without rounding error. Rounding to two decimals
    depends on the float itself and is left to the library.
  \<^item> A match row is a Python \<^verbatim>\<open>dict\<close>; it is the record \<open>row\<close> with one field per key
    the code reads or writes. A field of option type holds what \<^verbatim>\<open>row.get(key)\<close>
    returns, \<open>None\<close> for Python's \<^verbatim>\<open>None\<close> and for a missing key alike.
  \<^item> What the code takes from the Python standard library (Unicode tables, the ISO-8601
    parser, \<^verbatim>\<open>difflib\<close>, \<^verbatim>\<open>round\<close>) is a field of the record \<open>pylib\<close>, passed to every
    function that reaches it.
\<close>

subsection \<open>The standard library\<close>

record pylib =
  nfkd :: "string \<Rightarrow> string"
    \<comment> \<open>\<^verbatim>\<open>unicodedata.normalize("NFKD", text)\<close>\<close>
  combining :: "char \<Rightarrow> bool"
    \<comment> \<open>\<^verbatim>\<open>unicodedata.combining(ch)\<close> is not 0\<close>
  str_lower :: "string \<Rightarrow> string"
    \<comment> \<open>\<^verbatim>\<open>str.lower\<close>\<close>
  fromisoformat :: "string \<Rightarrow> real option"
    \<comment> \<open>\<^verbatim>\<open>datetime.fromisoformat\<close> followed by the conversion to UTC of
        \<^verbatim>\<open>parse_iso_utc\<close> (a naive value is read as UTC): the instant in seconds since the
        epoch, \<open>None\<close> where Python raises \<^verbatim>\<open>ValueError\<close>\<close>
  ratio :: "string \<Rightarrow> string \<Rightarrow> real"
    \<comment> \<open>\<^verbatim>\<open>SequenceMatcher(None, a, b).ratio()\<close>\<close>
  round2 :: "real \<Rightarrow> real"
    \<comment> \<open>\<^verbatim>\<open>round(x, 2)\<close> as it acts on the float that the code computes for the real \<open>x\<close>:
        a hundredth nearest to it. It is a parameter because the float decides between two
        hundredths that are equally near to the real: the code rounds the float it computes
        for 0.80 + (0.875 - 0.75) to 0.93, where rounding the real 0.925 half to even would
        give 0.92\<close>

subsection \<open>Strings\<close>

text \<open>\<^verbatim>\<open>str.isspace\<close> on one character, for the characters a \<open>char\<close> can hold.\<close>

definition py_isspace :: "char \<Rightarrow> bool" where
  "py_isspace c =
     (let n = (of_char c :: nat)
      in (9 \<le> n \<and> n \<le> 13) \<or> (28 \<le> n \<and> n \<le> 32) \<or> n = 133 \<or> n = 160)"

text \<open>\<^verbatim>\<open>str.strip()\<close>.\<close>

definition strip :: "string \<Rightarrow> string" where
  "strip s = rev (dropWhile py_isspace (rev (dropWhile py_isspace s)))"

text \<open>\<^verbatim>\<open>str.split()\<close> with no separator: the maximal runs of non-space characters.
  \<open>split_from cur s\<close> carries the token being read.\<close>

fun split_from :: "string \<Rightarrow> string \<Rightarrow> string list" where
  "split_from cur [] = (if cur = [] then [] else [cur])"
| "split_from cur (c # cs) =
     (if py_isspace c
      then (if cur = [] then split_from [] cs else cur # split_from [] cs)
      else split_from (cur @ [c]) cs)"

definition split_ws :: "string \<Rightarrow> string list" where
  "split_ws s = split_from [] s"

text \<open>\<^verbatim>\<open>" ".join(parts)\<close>.\<close>

fun join_space :: "string list \<Rightarrow> string" where
  "join_space [] = []"
| "join_space [p] = p"
| "join_space (p # q # ps) = p @ CHR '' '' # join_space (q # ps)"

text \<open>The character class \<^verbatim>\<open>[a-z0-9 ]\<close>.\<close>

definition in_class :: "char \<Rightarrow> bool" where
  "in_class c =
     (let n = (of_char c :: nat)
      in (97 \<le> n \<and> n \<le> 122) \<or> (48 \<le> n \<and> n \<le> 57) \<or> n = 32)"

text \<open>\<^verbatim>\<open>re.sub(r"[^a-z0-9 ]+", " ", text)\<close>: every maximal run of characters outside the
  class becomes one space. \<open>sub_class in_run s\<close> carries whether the previous character was
  part of such a run.\<close>

fun sub_class :: "bool \<Rightarrow> string \<Rightarrow> string" where
  "sub_class in_run [] = []"
| "sub_class in_run (c # cs) =
     (if in_class c then c # sub_class False cs
      else if in_run then sub_class True cs
      else CHR '' '' # sub_class True cs)"

text \<open>The decimal text of an integer, as an f-string prints it.\<close>

definition digit_char :: "nat \<Rightarrow> char" where
  "digit_char d = ''0123456789'' ! d"

function str_of_nat :: "nat \<Rightarrow> string" where
  "str_of_nat n = (if n < 10 then [digit_char n] else str_of_nat (n div 10) @ [digit_char (n mod 10)])"
  by pat_completeness auto
termination
  by (relation "measure (\<lambda>n. n)") auto

declare str_of_nat.simps [simp del]

definition str_of_int :: "int \<Rightarrow> string" where
  "str_of_int i = (if i < 0 then CHR ''-'' # str_of_nat (nat (- i)) else str_of_nat (nat i))"

subsection \<open>normalize.py\<close>

definition TEAM_STOP_WORDS :: "string set" where
  "TEAM_STOP_WORDS =
     {''ac'', ''afc'', ''athletic'', ''atletico'', ''cf'', ''club'', ''fc'', ''fk'', ''foot'',
      ''football'', ''if'', ''nk'', ''rc'', ''sc'', ''sk'', ''sporting'', ''sv''}"

text \<open>\<^verbatim>\<open>parse_iso_utc\<close>. An absent or empty value, and one that is blank once stripped, is
  \<open>None\<close>; a trailing \<^verbatim>\<open>Z\<close> is rewritten to \<^verbatim>\<open>+00:00\<close> before parsing.\<close>

definition parse_iso_utc :: "pylib \<Rightarrow> string option \<Rightarrow> real option" where
  "parse_iso_utc lib value =
     (case value of
        None \<Rightarrow> None
      | Some v \<Rightarrow>
          if v = [] then None
          else let cleaned = strip v in
            if cleaned = [] then None
            else fromisoformat lib
                   (if last cleaned = CHR ''Z'' then butlast cleaned @ ''+00:00'' else cleaned))"

text \<open>\<^verbatim>\<open>normalize_team_name\<close>.\<close>

definition normalize_team_name :: "pylib \<Rightarrow> string option \<Rightarrow> string" where
  "normalize_team_name lib name =
     (case name of
        None \<Rightarrow> []
      | Some n \<Rightarrow>
          if n = [] then []
          else
            let text = nfkd lib n;
                text = filter (\<lambda>ch. \<not> combining lib ch) text;
                text = str_lower lib text;
                text = sub_class False text;
                parts = filter (\<lambda>p. p \<noteq> [] \<and> p \<notin> TEAM_STOP_WORDS) (split_ws text)
            in if parts = [] then [] else join_space parts)"

text \<open>\<^verbatim>\<open>similarity\<close>.\<close>

definition similarity :: "pylib \<Rightarrow> string option \<Rightarrow> string option \<Rightarrow> real" where
  "similarity lib left right =
     (let left_norm = normalize_team_name lib left;
          right_norm = normalize_team_name lib right
      in if left_norm = [] \<and> right_norm = [] then 1
         else if left_norm = [] \<or> right_norm = [] then 0
         else ratio lib left_norm right_norm)"

text \<open>\<^verbatim>\<open>team_pair_similarity\<close>.\<close>

definition team_pair_similarity ::
  "pylib \<Rightarrow> string \<Rightarrow> string \<Rightarrow> string \<Rightarrow> string \<Rightarrow> real \<times> bool" where
  "team_pair_similarity lib home_a away_a home_b away_b =
     (let direct = (similarity lib (Some home_a) (Some home_b)
                    + similarity lib (Some away_a) (Some away_b)) / 2;
          swapped = (similarity lib (Some home_a) (Some away_b)
                     + similarity lib (Some away_a) (Some home_b)) / 2
      in if direct \<ge> swapped then (direct, False) else (swapped, True))"

text \<open>\<^verbatim>\<open>minutes_between\<close>.\<close>

definition minutes_between :: "pylib \<Rightarrow> string option \<Rightarrow> string option \<Rightarrow> real option" where
  "minutes_between lib left_iso right_iso =
     (case (parse_iso_utc lib left_iso, parse_iso_utc lib right_iso) of
        (Some left, Some right) \<Rightarrow> Some (\<bar>left - right\<bar> / 60)
      | _ \<Rightarrow> None)"

text \<open>The list \<^verbatim>\<open>parts\<close> that \<^verbatim>\<open>normalize_team_name\<close> builds from a non-empty name.\<close>

definition name_parts :: "pylib \<Rightarrow> string \<Rightarrow> string list" where
  "name_parts lib n =
     filter (\<lambda>p. p \<noteq> [] \<and> p \<notin> TEAM_STOP_WORDS)
       (split_ws (sub_class False
          (str_lower lib (filter (\<lambda>ch. \<not> combining lib ch) (nfkd lib n)))))"

subsection \<open>service.py: rows, statuses, score pairs\<close>

record row =
  provider :: "string option"
  provider_match_id :: "string option"
  competition :: "string option"
  home_team :: "string option"
  away_team :: "string option"
  home_score :: "int option"
  away_score :: "int option"
  status :: "string option"
  raw_status :: "string option"
  period :: "string option"
  minute :: "int option"
  extra_minute :: "int option"
  start_time_utc :: "string option"
  last_updated_utc :: "string option"
  venue :: "string option"
  streamed_watch_url :: "string option"
  discrepancies :: "string list"
  sources :: "string list"
  confidence :: real
  verification :: "string option"
  external_ids :: "(string \<times> string option) list"
  last_update_age_seconds :: "real option"
  is_stale :: "bool option"
  staleness_reason :: "string option"

text \<open>\<^verbatim>\<open>x or default\<close> on an optional string, and the truth value of an optional string.\<close>

definition str_or :: "string option \<Rightarrow> string \<Rightarrow> string" where
  "str_or x d = (case x of None \<Rightarrow> d | Some v \<Rightarrow> if v = [] then d else v)"

definition truthy :: "string option \<Rightarrow> bool" where
  "truthy x = (case x of None \<Rightarrow> False | Some v \<Rightarrow> v \<noteq> [])"

definition STATUS_PRIORITY :: "string \<Rightarrow> int option" where
  "STATUS_PRIORITY =
     map_of [(''live'', 5), (''finished'', 4), (''postponed'', 3), (''cancelled'', 2),
             (''scheduled'', 1), (''unknown'', 0)]"

text \<open>\<^verbatim>\<open>STATUS_PRIORITY.get(s, 0)\<close>.\<close>

definition status_priority :: "string \<Rightarrow> int" where
  "status_priority s = (case STATUS_PRIORITY s of None \<Rightarrow> 0 | Some p \<Rightarrow> p)"

definition preferred_status :: "string \<Rightarrow> string \<Rightarrow> string" where
  "preferred_status first second =
     (let first_priority = status_priority first;
          second_priority = status_priority second
      in if second_priority > first_priority then second else first)"

definition score_pair :: "row \<Rightarrow> int option \<times> int option" where
  "score_pair r = (home_score r, away_score r)"

text \<open>\<^verbatim>\<open>None in pair\<close>.\<close>

definition none_in :: "int option \<times> int option \<Rightarrow> bool" where
  "none_in p = (fst p = None \<or> snd p = None)"

definition max_timestamp :: "pylib \<Rightarrow> string option \<Rightarrow> string option \<Rightarrow> string option" where
  "max_timestamp lib left right =
     (case parse_iso_utc lib left of
        None \<Rightarrow> right
      | Some left_dt \<Rightarrow>
          (case parse_iso_utc lib right of
             None \<Rightarrow> left
           | Some right_dt \<Rightarrow> if left_dt \<ge> right_dt then left else right))"

subsection \<open>service.py: the record linker\<close>

text \<open>The dataclass \<^verbatim>\<open>MatchLink\<close>; its field \<^verbatim>\<open>similarity\<close> is \<open>link_similarity\<close> here.\<close>

record MatchLink =
  base_index :: nat
  candidate_index :: nat
  link_similarity :: real
  swapped :: bool

text \<open>The body of the inner loop of \<^verbatim>\<open>_match_records\<close> from the time gap to the final score
  (lines 83 to 97): \<open>None\<close> where the candidate is skipped for its time gap, else the
  final score and the swapped flag.\<close>

definition score_candidate :: "pylib \<Rightarrow> real \<Rightarrow> row \<Rightarrow> row \<Rightarrow> (real \<times> bool) option" where
  "score_candidate lib max_minutes_diff base candidate =
     (let minute_gap = minutes_between lib (start_time_utc base) (start_time_utc candidate)
      in case minute_gap of
           None \<Rightarrow>
             Some (team_pair_similarity lib
                     (str_or (home_team base) []) (str_or (away_team base) [])
                     (str_or (home_team candidate) []) (str_or (away_team candidate) []))
         | Some gap \<Rightarrow>
             if gap > max_minutes_diff then None
             else
               let (sim, sw) = team_pair_similarity lib
                     (str_or (home_team base) []) (str_or (away_team base) [])
                     (str_or (home_team candidate) []) (str_or (away_team candidate) [])
               in Some (sim + max 0 (1 - gap / max_minutes_diff) * 0.10, sw))"

text \<open>The inner loop: \<open>ci\<close> is the index of the first candidate of the list still to scan,
  \<open>best\<close> the best link so far.\<close>

fun scan_candidates ::
  "pylib \<Rightarrow> real \<Rightarrow> nat \<Rightarrow> row \<Rightarrow> nat set \<Rightarrow> nat \<Rightarrow> row list \<Rightarrow> MatchLink option
     \<Rightarrow> MatchLink option" where
  "scan_candidates lib mmd bi base used ci [] best = best"
| "scan_candidates lib mmd bi base used ci (candidate # rest) best =
     (if ci \<in> used then scan_candidates lib mmd bi base used (Suc ci) rest best
      else case score_candidate lib mmd base candidate of
             None \<Rightarrow> scan_candidates lib mmd bi base used (Suc ci) rest best
           | Some (sim, sw) \<Rightarrow>
               if best = None \<or> sim > link_similarity (the best)
               then scan_candidates lib mmd bi base used (Suc ci) rest
                      (Some \<lparr>base_index = bi, candidate_index = ci,
                             link_similarity = sim, swapped = sw\<rparr>)
               else scan_candidates lib mmd bi base used (Suc ci) rest best)"

text \<open>The outer loop: \<open>bi\<close> is the index of the first base row still to link.\<close>

fun link_rows ::
  "pylib \<Rightarrow> real \<Rightarrow> real \<Rightarrow> nat \<Rightarrow> row list \<Rightarrow> row list \<Rightarrow> nat set \<Rightarrow> MatchLink list
     \<Rightarrow> MatchLink list" where
  "link_rows lib mmd min_similarity bi [] candidate_rows used links = links"
| "link_rows lib mmd min_similarity bi (base # rest) candidate_rows used links =
     (case scan_candidates lib mmd bi base used 0 candidate_rows None of
        None \<Rightarrow> link_rows lib mmd min_similarity (Suc bi) rest candidate_rows used links
      | Some best \<Rightarrow>
          if link_similarity best < min_similarity
          then link_rows lib mmd min_similarity (Suc bi) rest candidate_rows used links
          else link_rows lib mmd min_similarity (Suc bi) rest candidate_rows
                 (insert (candidate_index best) used) (links @ [best]))"

text \<open>\<^verbatim>\<open>_match_records\<close>.\<close>

definition match_records ::
  "pylib \<Rightarrow> row list \<Rightarrow> row list \<Rightarrow> real \<Rightarrow> real \<Rightarrow> MatchLink list" where
  "match_records lib base_rows candidate_rows max_minutes_diff min_similarity =
     link_rows lib max_minutes_diff min_similarity 0 base_rows candidate_rows {} []"

text \<open>The candidates claimed by the links of the base rows before row \<open>bi\<close>: the set
  \<^verbatim>\<open>used_candidates\<close> when the outer loop of \<^verbatim>\<open>_match_records\<close> reaches that row.\<close>

definition earlier_claims :: "MatchLink list \<Rightarrow> nat \<Rightarrow> nat set" where
  "earlier_claims links bi = candidate_index ` {l' \<in> set links. base_index l' < bi}"

subsection \<open>service.py: the merge engine\<close>

datatype error = IndexError

text \<open>The seeding of a canonical row from a row of one source (lines 122 to 126, 177 to
  181 and 230 to 234): a copy of the row with the four canonical fields set.\<close>

definition seed_row :: "string \<Rightarrow> real \<Rightarrow> row \<Rightarrow> row" where
  "seed_row src conf r =
     r\<lparr>sources := [src], confidence := conf, verification := Some ''single_source'',
       external_ids := [(src, provider_match_id r)]\<rparr>"

text \<open>How an f-string prints a score.\<close>

definition fmt_score :: "int option \<Rightarrow> string" where
  "fmt_score v = (case v of None \<Rightarrow> ''None'' | Some i \<Rightarrow> str_of_int i)"

text \<open>The body of the loop over the links to the second source, in three parts: the
  attachment of the source (lines 136 to 146), the comparison of the score pairs (lines 148
  to 167) and the filling of competition and venue (lines 169 to 172).\<close>

definition espn_attach :: "pylib \<Rightarrow> MatchLink \<Rightarrow> row \<Rightarrow> row \<Rightarrow> row" where
  "espn_attach lib link goal_row espn_row =
     goal_row\<lparr>
       sources := sources goal_row @ [''espn''],
       external_ids := AList.update ''espn'' (provider_match_id espn_row) (external_ids goal_row),
       confidence := round2 lib (min 0.98 (0.80 + (link_similarity link - 0.75))),
       status := Some (preferred_status (str_or (status goal_row) ''unknown'')
                                        (str_or (status espn_row) ''unknown'')),
       last_updated_utc := max_timestamp lib (last_updated_utc goal_row) (last_updated_utc espn_row)\<rparr>"

definition espn_scores :: "row \<Rightarrow> row \<Rightarrow> row" where
  "espn_scores goal_row espn_row =
     (let goal_scores = score_pair goal_row;
          espn_scores = score_pair espn_row
      in if goal_scores = espn_scores \<and> \<not> none_in goal_scores
         then goal_row\<lparr>verification := Some ''confirmed_by_multiple_sources'',
                       confidence := max (confidence goal_row) 0.95\<rparr>
         else if \<not> none_in goal_scores \<and> \<not> none_in espn_scores \<and> goal_scores \<noteq> espn_scores
         then goal_row\<lparr>verification := Some ''score_conflict'',
                       confidence := min (confidence goal_row) 0.56,
                       discrepancies := discrepancies goal_row @
                         [''Goal score '' @ fmt_score (fst goal_scores) @ ''-''
                            @ fmt_score (snd goal_scores) @ '' differs from ESPN ''
                            @ fmt_score (fst espn_scores) @ ''-'' @ fmt_score (snd espn_scores)]\<rparr>
         else if none_in goal_scores \<and> \<not> none_in espn_scores
         then goal_row\<lparr>home_score := home_score espn_row,
                       away_score := away_score espn_row,
                       verification := Some ''filled_from_espn'',
                       confidence := max (confidence goal_row) 0.83\<rparr>
         else goal_row)"

definition espn_fill :: "row \<Rightarrow> row \<Rightarrow> row" where
  "espn_fill goal_row espn_row =
     (let r = (if \<not> truthy (competition goal_row) \<and> truthy (competition espn_row)
               then goal_row\<lparr>competition := competition espn_row\<rparr> else goal_row)
      in if \<not> truthy (venue r) \<and> truthy (venue espn_row)
         then r\<lparr>venue := venue espn_row\<rparr> else r)"

definition link_espn :: "pylib \<Rightarrow> MatchLink \<Rightarrow> row \<Rightarrow> row \<Rightarrow> row" where
  "link_espn lib link goal_row espn_row =
     espn_fill (espn_scores (espn_attach lib link goal_row espn_row) espn_row) espn_row"

text \<open>The body of the loop over the links to the third source, in the same three parts
  (lines 191 to 201, 203 to 222, 224 to 225).\<close>

definition sofa_attach :: "pylib \<Rightarrow> row \<Rightarrow> row \<Rightarrow> row" where
  "sofa_attach lib merged_row sofa_row =
     merged_row\<lparr>
       sources := (if ''sofascore'' \<notin> set (sources merged_row)
                   then sources merged_row @ [''sofascore''] else sources merged_row),
       external_ids :=
         AList.update ''sofascore'' (provider_match_id sofa_row) (external_ids merged_row),
       status := Some (preferred_status (str_or (status merged_row) ''unknown'')
                                        (str_or (status sofa_row) ''unknown'')),
       last_updated_utc :=
         max_timestamp lib (last_updated_utc merged_row) (last_updated_utc sofa_row)\<rparr>"

definition sofa_scores :: "row \<Rightarrow> row \<Rightarrow> row" where
  "sofa_scores merged_row sofa_row =
     (let merged_scores = score_pair merged_row;
          sofa_scores = score_pair sofa_row
      in if merged_scores = sofa_scores \<and> \<not> none_in merged_scores
         then merged_row\<lparr>verification := Some ''confirmed_by_multiple_sources'',
                         confidence := max (confidence merged_row) 0.96\<rparr>
         else if none_in merged_scores \<and> \<not> none_in sofa_scores
         then merged_row\<lparr>home_score := home_score sofa_row,
                         away_score := away_score sofa_row,
                         verification := Some ''filled_from_sofascore'',
                         confidence := max (confidence merged_row) 0.86\<rparr>
         else if \<not> none_in merged_scores \<and> \<not> none_in sofa_scores \<and> merged_scores \<noteq> sofa_scores
         then merged_row\<lparr>verification := Some ''score_conflict'',
                         confidence := min (confidence merged_row) 0.50,
                         discrepancies := discrepancies merged_row @
                           [''Merged score '' @ fmt_score (fst merged_scores) @ ''-''
                              @ fmt_score (snd merged_scores) @ '' differs from SofaScore ''
                              @ fmt_score (fst sofa_scores) @ ''-''
                              @ fmt_score (snd sofa_scores)]\<rparr>
         else merged_row)"

definition sofa_fill :: "row \<Rightarrow> row \<Rightarrow> row" where
  "sofa_fill merged_row sofa_row =
     (if \<not> truthy (competition merged_row) \<and> truthy (competition sofa_row)
      then merged_row\<lparr>competition := competition sofa_row\<rparr> else merged_row)"

definition link_sofa :: "pylib \<Rightarrow> MatchLink \<Rightarrow> row \<Rightarrow> row \<Rightarrow> row" where
  "link_sofa lib link merged_row sofa_row =
     sofa_fill (sofa_scores (sofa_attach lib merged_row sofa_row) sofa_row) sofa_row"

text \<open>The body of the loop over the links to the streamed source (lines 239 to 246).\<close>

definition link_streamed :: "MatchLink \<Rightarrow> row \<Rightarrow> row \<Rightarrow> row" where
  "link_streamed link merged_row streamed_row =
     (let watch_url = streamed_watch_url streamed_row
      in if truthy watch_url
         then merged_row\<lparr>
                streamed_watch_url := watch_url,
                sources := (if ''streamed'' \<notin> set (sources merged_row)
                            then sources merged_row @ [''streamed''] else sources merged_row),
                external_ids :=
                  AList.update ''streamed'' (provider_match_id streamed_row)
                    (external_ids merged_row)\<rparr>
         else merged_row)"

text \<open>The confidence of a fresh link (line 138) and the condition of the conflict branch
  (lines 153 and 213).\<close>

definition fresh_confidence :: "pylib \<Rightarrow> MatchLink \<Rightarrow> real" where
  "fresh_confidence lib l = round2 lib (min 0.98 (0.80 + (link_similarity l - 0.75)))"

definition in_conflict :: "row \<Rightarrow> row \<Rightarrow> bool" where
  "in_conflict r e =
     (\<not> none_in (score_pair r) \<and> \<not> none_in (score_pair e) \<and> score_pair r \<noteq> score_pair e)"

text \<open>A row without the three fields that the fourth stage writes.\<close>

definition other_fields :: "row \<Rightarrow> row" where
  "other_fields r = r\<lparr>streamed_watch_url := None, sources := [], external_ids := []\<rparr>"

text \<open>A loop over links: each link reads \<^verbatim>\<open>merged[link.base_index]\<close> and
  \<^verbatim>\<open>rows[link.candidate_index]\<close>, where Python raises \<^verbatim>\<open>IndexError\<close> out of range, and
  updates the merged row in place.\<close>

fun apply_links ::
  "(MatchLink \<Rightarrow> row \<Rightarrow> row \<Rightarrow> row) \<Rightarrow> MatchLink list \<Rightarrow> row list \<Rightarrow> row list
     \<Rightarrow> error + row list" where
  "apply_links body [] merged rows = Inr merged"
| "apply_links body (link # links) merged rows =
     (if base_index link < length merged \<and> candidate_index link < length rows
      then apply_links body links
             (merged[base_index link :=
                       body link (merged ! base_index link) (rows ! candidate_index link)])
             rows
      else Inl IndexError)"

text \<open>The rows of a source that no link claimed, seeded as canonical rows of their own
  (lines 174 to 182 and 227 to 235).\<close>

definition unlinked_rows :: "string \<Rightarrow> real \<Rightarrow> nat set \<Rightarrow> row list \<Rightarrow> row list" where
  "unlinked_rows src conf linked rows =
     map (\<lambda>(index, r). seed_row src conf r)
       (filter (\<lambda>(index, r). index \<notin> linked) (enumerate 0 rows))"

text \<open>The three linking stages (lines 129 to 182, 184 to 235, 237 to 246).\<close>

definition espn_stage :: "pylib \<Rightarrow> row list \<Rightarrow> row list \<Rightarrow> error + row list" where
  "espn_stage lib merged espn_rows =
     (let goal_espn_links = match_records lib merged espn_rows 180 0.76
      in case apply_links (link_espn lib) goal_espn_links merged espn_rows of
           Inl e \<Rightarrow> Inl e
         | Inr merged' \<Rightarrow>
             Inr (merged' @ unlinked_rows ''espn'' 0.68
                              (candidate_index ` set goal_espn_links) espn_rows))"

definition sofa_stage :: "pylib \<Rightarrow> row list \<Rightarrow> row list \<Rightarrow> error + row list" where
  "sofa_stage lib merged sofa_rows =
     (let merged_sofa_links = match_records lib merged sofa_rows 180 0.78
      in case apply_links (link_sofa lib) merged_sofa_links merged sofa_rows of
           Inl e \<Rightarrow> Inl e
         | Inr merged' \<Rightarrow>
             Inr (merged' @ unlinked_rows ''sofascore'' 0.74
                              (candidate_index ` set merged_sofa_links) sofa_rows))"

definition streamed_stage :: "pylib \<Rightarrow> row list \<Rightarrow> row list \<Rightarrow> error + row list" where
  "streamed_stage lib merged streamed_rows =
     (let stream_links = match_records lib merged streamed_rows 180 0.80
      in apply_links link_streamed stream_links merged streamed_rows)"

text \<open>\<^verbatim>\<open>_sort_key\<close>.\<close>

definition row_sort_key :: "pylib \<Rightarrow> row \<Rightarrow> int \<times> string \<times> string" where
  "row_sort_key lib r =
     (let status_rank = status_priority (str_or (status r) ''unknown'');
          start = str_or (start_time_utc r) [];
          match_name = str_or (home_team r) [] @ '' vs '' @ str_or (away_team r) []
      in (- status_rank, start, str_lower lib match_name))"

text \<open>\<^verbatim>\<open>merge_provider_matches\<close>. The final sort is stable, as Python's is.\<close>

definition merge_provider_matches ::
  "pylib \<Rightarrow> row list \<Rightarrow> row list \<Rightarrow> row list \<Rightarrow> row list option \<Rightarrow> error + row list" where
  "merge_provider_matches lib goal_rows espn_rows streamed_rows sofa_rows =
     (let sofa_rows = (case sofa_rows of None \<Rightarrow> [] | Some rs \<Rightarrow> rs);
          merged = map (seed_row ''goal'' 0.72) goal_rows
      in case espn_stage lib merged espn_rows of
           Inl e \<Rightarrow> Inl e
         | Inr merged \<Rightarrow>
             (case sofa_stage lib merged sofa_rows of
                Inl e \<Rightarrow> Inl e
              | Inr merged \<Rightarrow>
                  (case streamed_stage lib merged streamed_rows of
                     Inl e \<Rightarrow> Inl e
                   | Inr merged \<Rightarrow> Inr (sort_key (row_sort_key lib) merged))))"

text \<open>The status that the stages read from a row:
  \<^verbatim>\<open>str(row.get("status") or "unknown")\<close> (lines 140, 141, 195, 196 and 249).\<close>

definition read_status :: "row \<Rightarrow> string" where
  "read_status r = str_or (status r) ''unknown''"

text \<open>The rows of a source that no link claimed, in the order of the source; the rows of
  a source that the links attach to the row at index \<open>i\<close>; and the status of a row once
  \<^verbatim>\<open>_preferred_status\<close> has folded the statuses of the attached rows into it, one after
  the other (a row to which nothing is attached keeps the status it has).\<close>

definition unclaimed :: "MatchLink list \<Rightarrow> row list \<Rightarrow> row list" where
  "unclaimed links rows =
     map snd (filter (\<lambda>(index, r). index \<notin> candidate_index ` set links) (enumerate 0 rows))"

definition linked_to :: "MatchLink list \<Rightarrow> row list \<Rightarrow> nat \<Rightarrow> row list" where
  "linked_to links rows i =
     map (\<lambda>l. rows ! candidate_index l) (filter (\<lambda>l. base_index l = i) links)"

definition fold_status :: "row \<Rightarrow> row list \<Rightarrow> string option" where
  "fold_status r others =
     (if others = [] then status r
      else Some (foldl preferred_status (read_status r) (map read_status others)))"

subsection \<open>service.py: the quality gate\<close>

text \<open>The reference time of \<^verbatim>\<open>_apply_quality_gate\<close> (line 414); \<open>now_iso\<close> is what
  \<^verbatim>\<open>utc_now_iso()\<close> returns.\<close>

definition reference_time :: "pylib \<Rightarrow> string option \<Rightarrow> string \<Rightarrow> real option" where
  "reference_time lib generated_at_utc now_iso =
     (case parse_iso_utc lib generated_at_utc of
        Some t \<Rightarrow> Some t
      | None \<Rightarrow> parse_iso_utc lib (Some now_iso))"

text \<open>The age of a row (lines 423 to 426).\<close>

definition age_of :: "pylib \<Rightarrow> real \<Rightarrow> row \<Rightarrow> real option" where
  "age_of lib ref r =
     (case parse_iso_utc lib (last_updated_utc r) of
        None \<Rightarrow> None
      | Some last_updated \<Rightarrow> Some (max 0 (ref - last_updated)))"

text \<open>The annotation of one row (lines 422 to 439): the copy \<^verbatim>\<open>candidate\<close> with its age,
  its staleness and, when stale, the reason.\<close>

definition gate_annotate :: "pylib \<Rightarrow> int \<Rightarrow> real \<Rightarrow> row \<Rightarrow> row" where
  "gate_annotate lib max_live_stale_seconds ref r =
     (let age_seconds = age_of lib ref r;
          candidate = r\<lparr>last_update_age_seconds := age_seconds\<rparr>;
          status = str_lower lib (str_or (row.status candidate) ''unknown'');
          stale = (status = ''live'' \<and>
                   (case age_seconds of
                      None \<Rightarrow> True
                    | Some age \<Rightarrow> age > real_of_int max_live_stale_seconds));
          candidate = candidate\<lparr>is_stale := Some stale\<rparr>
      in if stale
         then candidate\<lparr>staleness_reason :=
                Some (if age_seconds = None then ''missing_last_update''
                      else ''older_than_'' @ str_of_int max_live_stale_seconds @ ''_seconds'')\<rparr>
         else candidate)"

text \<open>The loop of \<^verbatim>\<open>_apply_quality_gate\<close> (lines 421 to 447), with the list \<^verbatim>\<open>kept\<close> and
  the two counters as accumulators.\<close>

fun gate_loop ::
  "pylib \<Rightarrow> int \<Rightarrow> real \<Rightarrow> bool \<Rightarrow> bool \<Rightarrow> row list \<Rightarrow> row list \<Rightarrow> nat \<Rightarrow> nat
     \<Rightarrow> row list \<times> nat \<times> nat" where
  "gate_loop lib mx ref include_stale include_conflicts [] kept dropped_stale dropped_conflicts =
     (kept, dropped_stale, dropped_conflicts)"
| "gate_loop lib mx ref include_stale include_conflicts (r # rest) kept dropped_stale
     dropped_conflicts =
     (let candidate = gate_annotate lib mx ref r
      in if verification candidate = Some ''score_conflict'' \<and> \<not> include_conflicts
         then gate_loop lib mx ref include_stale include_conflicts rest kept dropped_stale
                (dropped_conflicts + 1)
         else if is_stale candidate = Some True \<and> \<not> include_stale
         then gate_loop lib mx ref include_stale include_conflicts rest kept
                (dropped_stale + 1) dropped_conflicts
         else gate_loop lib mx ref include_stale include_conflicts rest (kept @ [candidate])
                dropped_stale dropped_conflicts)"

text \<open>\<^verbatim>\<open>_apply_quality_gate\<close>; \<open>max_live_stale_seconds\<close> is the field of the service. The
  result is \<^verbatim>\<open>(kept, dropped_stale, dropped_conflicts)\<close>.\<close>

definition apply_quality_gate ::
  "pylib \<Rightarrow> int \<Rightarrow> string \<Rightarrow> row list \<Rightarrow> string option \<Rightarrow> bool \<Rightarrow> bool
     \<Rightarrow> row list \<times> nat \<times> nat" where
  "apply_quality_gate lib max_live_stale_seconds now_iso matches generated_at_utc
     include_stale include_conflicts =
     (case reference_time lib generated_at_utc now_iso of
        None \<Rightarrow> (matches, 0, 0)
      | Some ref \<Rightarrow>
          gate_loop lib max_live_stale_seconds ref include_stale include_conflicts
            matches [] 0 0)"

text \<open>The two conditions under which the loop drops a row (lines 441 and 444).\<close>

definition conflict_dropped :: "bool \<Rightarrow> row \<Rightarrow> bool" where
  "conflict_dropped include_conflicts c =
     (verification c = Some ''score_conflict'' \<and> \<not> include_conflicts)"

definition stale_dropped :: "bool \<Rightarrow> row \<Rightarrow> bool" where
  "stale_dropped include_stale c = (is_stale c = Some True \<and> \<not> include_stale)"

text \<open>The annotated rows: what the gate returns when both include flags are on, so that
  no row is dropped.\<close>

definition gate_rows :: "pylib \<Rightarrow> int \<Rightarrow> string \<Rightarrow> row list \<Rightarrow> string option \<Rightarrow> row list" where
  "gate_rows lib mx now_iso matches generated_at_utc =
     fst (apply_quality_gate lib mx now_iso matches generated_at_utc True True)"

subsection \<open>Sample values\<close>

text \<open>A library for the examples: the Unicode functions as they act on ASCII text, the
  timestamp parser on three instants of 1 May 2024, the ratio on the normalized names of the
  examples (1 for two equal strings, the value of \<^verbatim>\<open>difflib\<close> for the listed pairs) and
  the rounding on the two values that the examples round (0.98 and 329/360, which is
  0.9138...).\<close>

definition ascii_lower :: "char \<Rightarrow> char" where
  "ascii_lower c =
     (let n = (of_char c :: nat) in if 65 \<le> n \<and> n \<le> 90 then char_of (n + 32) else c)"

definition sample_lib :: pylib where
  "sample_lib =
     \<lparr>nfkd = (\<lambda>s. s), combining = (\<lambda>c. False), str_lower = map ascii_lower,
      fromisoformat = map_of [(''2024-05-01T18:00:00+00:00'', 1714586400),
                              (''2024-05-01T18:20:00+00:00'', 1714587600),
                              (''2024-05-01T22:00:00+00:00'', 1714600800)],
      ratio = (\<lambda>a b. if a = b then 1
                     else case map_of [((''alpha'', ''beta''), 2 / 9), ((''beta'', ''alpha''), 2 / 9),
                                       ((''alpha'', ''alpho''), 4 / 5), ((''beta'', ''bota''), 3 / 4),
                                       ((''alpha'', ''bota''), 2 / 9), ((''beta'', ''alpho''), 2 / 9)]
                                 (a, b) of
                            Some x \<Rightarrow> x | None \<Rightarrow> 0),
      round2 = (\<lambda>x. case map_of [(49 / 50, 49 / 50), (329 / 360, 91 / 100)] x of
                           Some y \<Rightarrow> y | None \<Rightarrow> 0)\<rparr>"

definition blank_row :: row where
  "blank_row =
     \<lparr>provider = None, provider_match_id = None, competition = None, home_team = None,
      away_team = None, home_score = None, away_score = None, status = None,
      raw_status = None, period = None, minute = None, extra_minute = None,
      start_time_utc = None, last_updated_utc = None, venue = None,
      streamed_watch_url = None, discrepancies = [], sources = [], confidence = 0,
      verification = None, external_ids = [], last_update_age_seconds = None,
      is_stale = None, staleness_reason = None\<rparr>"

text \<open>The live match Alpha FC against Beta FC as one source reports it, with the given
  scores.\<close>

definition sample_row :: "string \<Rightarrow> string \<Rightarrow> int option \<Rightarrow> int option \<Rightarrow> row" where
  "sample_row src ident hs as =
     blank_row\<lparr>provider := Some src, provider_match_id := Some ident,
       competition := Some ''Cup'', home_team := Some ''Alpha FC'',
       away_team := Some ''Beta FC'', home_score := hs, away_score := as,
       status := Some ''live'', start_time_utc := Some ''2024-05-01T18:00:00Z'',
       last_updated_utc := Some ''2024-05-01T18:00:00Z'', venue := Some ''Alpha Stadium''\<rparr>"

text \<open>A canonical row that is in conflict and, having no update time, stale.\<close>

definition conflicted_stale_row :: row where
  "conflicted_stale_row =
     (seed_row ''goal'' 0.72 (sample_row ''goal'' ''goal-1'' (Some 2) (Some 1)))
       \<lparr>verification := Some ''score_conflict'', last_updated_utc := None\<rparr>"

text \<open>A seeded anchor row and a row of the second source for the same match, with
  scores that disagree.\<close>

definition sample_goal :: row where
  "sample_goal = seed_row ''goal'' 0.72 (sample_row ''goal'' ''goal-1'' (Some 2) (Some 1))"

definition sample_espn :: row where
  "sample_espn = sample_row ''espn'' ''espn-1'' (Some 1) (Some 1)"

text \<open>The seeded anchor row once the match is over.\<close>

definition sample_finished :: row where
  "sample_finished = sample_goal\<lparr>status := Some ''finished''\<rparr>"


text \<open>The sample match as scheduled in the anchor source, and as the streamed source
  reports it, with a watch URL or without.\<close>

definition sample_scheduled :: row where
  "sample_scheduled = (sample_row ''goal'' ''goal-1'' None None)\<lparr>status := Some ''scheduled''\<rparr>"

definition sample_streamed :: "string option \<Rightarrow> row" where
  "sample_streamed url =
     (sample_row ''streamed'' ''alpha-vs-beta-123'' None None)
       \<lparr>competition := None, status := Some ''unknown'', venue := None,
        streamed_watch_url := url\<rparr>"

text \<open>The same streamed row, carrying the status live.\<close>

definition live_streamed :: row where
  "live_streamed =
     (sample_streamed (Some ''https://streamed.pk/watch/alpha-vs-beta-123''))
       \<lparr>status := Some ''live''\<rparr>"

text \<open>The sample match as the second source reports it once it is over, a replay of it
  four hours later that the second source lists as postponed, the match as the third
  source reports it, live, and a second row of the third source, 20 minutes later and
  cancelled.\<close>

definition sample_espn_finished :: row where
  "sample_espn_finished = (sample_row ''espn'' ''espn-1'' None None)\<lparr>status := Some ''finished''\<rparr>"

definition sample_espn_replay :: row where
  "sample_espn_replay =
     (sample_row ''espn'' ''espn-3'' None None)
       \<lparr>status := Some ''postponed'', start_time_utc := Some ''2024-05-01T22:00:00Z''\<rparr>"

definition sample_sofa_live :: row where
  "sample_sofa_live = sample_row ''sofascore'' ''sofa-1'' None None"

definition sample_sofa_late :: row where
  "sample_sofa_late =
     (sample_row ''sofascore'' ''sofa-2'' None None)
       \<lparr>status := Some ''cancelled'', start_time_utc := Some ''2024-05-01T18:20:00Z''\<rparr>"

section \<open>Properties\<close>

subsection \<open>The normalizer\<close>

lemma isspace_space: "py_isspace (CHR '' '')"
  by (simp add: py_isspace_def)

lemma in_class_space: "in_class (CHR '' '')"
  by (simp add: in_class_def)

lemma sub_class_in_class: "c \<in> set (sub_class b s) \<Longrightarrow> in_class c"
proof (induction b s rule: sub_class.induct)
  case (1 in_run)
  then show ?case by simp
next
  case (2 in_run c cs)
  with in_class_space show ?case by (auto split: if_splits)
qed

lemma sub_class_id: "\<forall>c\<in>set s. in_class c \<Longrightarrow> sub_class b s = s"
  by (induction s arbitrary: b) auto

lemma split_from_tokens:
  "\<forall>c\<in>set cur. \<not> py_isspace c \<Longrightarrow> t \<in> set (split_from cur s) \<Longrightarrow>
     t \<noteq> [] \<and> (\<forall>c\<in>set t. \<not> py_isspace c) \<and> set t \<subseteq> set cur \<union> set s"
proof (induction cur s rule: split_from.induct)
  case (1 cur)
  then show ?case by (cases "cur = []") auto
next
  case (2 cur c cs)
  note clean = \<open>\<forall>c\<in>set cur. \<not> py_isspace c\<close>
  note mem = \<open>t \<in> set (split_from cur (c # cs))\<close>
  show ?case
  proof (cases "py_isspace c")
    case True
    show ?thesis
    proof (cases "cur = []")
      case e: True
      from mem True e have "t \<in> set (split_from [] cs)" by simp
      with "2.IH"(1)[OF True e]
      have "t \<noteq> [] \<and> (\<forall>c\<in>set t. \<not> py_isspace c) \<and> set t \<subseteq> set [] \<union> set cs" by simp
      then show ?thesis by auto
    next
      case ne: False
      from mem True ne have "t = cur \<or> t \<in> set (split_from [] cs)" by simp
      then show ?thesis
      proof
        assume "t = cur"
        with ne clean show ?thesis by auto
      next
        assume "t \<in> set (split_from [] cs)"
        with "2.IH"(2)[OF True ne]
        have "t \<noteq> [] \<and> (\<forall>c\<in>set t. \<not> py_isspace c) \<and> set t \<subseteq> set [] \<union> set cs" by simp
        then show ?thesis by auto
      qed
    qed
  next
    case False
    from mem False have m: "t \<in> set (split_from (cur @ [c]) cs)" by simp
    from False clean have "\<forall>x\<in>set (cur @ [c]). \<not> py_isspace x" by simp
    from "2.IH"(3)[OF False this m] show ?thesis by auto
  qed
qed

lemma split_from_append:
  "\<forall>c\<in>set p. \<not> py_isspace c \<Longrightarrow> split_from cur (p @ rest) = split_from (cur @ p) rest"
  by (induction p arbitrary: cur) simp_all

lemma split_join:
  "\<forall>p\<in>set ps. p \<noteq> [] \<and> (\<forall>c\<in>set p. \<not> py_isspace c) \<Longrightarrow> split_ws (join_space ps) = ps"
proof (induction ps rule: join_space.induct)
  case 1
  then show ?case by (simp add: split_ws_def)
next
  case (2 p)
  then have "\<forall>c\<in>set p. \<not> py_isspace c" and "p \<noteq> []" by simp_all
  then show ?case using split_from_append[of p "[]" "[]"] by (simp add: split_ws_def)
next
  case (3 p q ps)
  from "3.prems" have p: "\<forall>c\<in>set p. \<not> py_isspace c" and ne: "p \<noteq> []" by simp_all
  from "3.prems" have "\<forall>p\<in>set (q # ps). p \<noteq> [] \<and> (\<forall>c\<in>set p. \<not> py_isspace c)" by simp
  from "3.IH"[OF this] have ih: "split_from [] (join_space (q # ps)) = q # ps"
    by (simp add: split_ws_def)
  have "split_from [] (p @ CHR '' '' # join_space (q # ps)) =
          split_from p (CHR '' '' # join_space (q # ps))"
    using split_from_append[OF p, of "[]"] by simp
  also have "\<dots> = p # split_from [] (join_space (q # ps))"
    using ne by (simp add: isspace_space)
  finally show ?case using ih by (simp add: split_ws_def)
qed

lemma join_in_class:
  "\<forall>p\<in>set ps. \<forall>c\<in>set p. in_class c \<Longrightarrow> c \<in> set (join_space ps) \<Longrightarrow> in_class c"
proof (induction ps rule: join_space.induct)
  case (3 p q ps)
  with in_class_space show ?case by auto
qed simp_all

lemma join_nonempty: "ps \<noteq> [] \<Longrightarrow> \<forall>p\<in>set ps. p \<noteq> [] \<Longrightarrow> join_space ps \<noteq> []"
  by (induction ps rule: join_space.induct) simp_all

lemma normalize_parts:
  "normalize_team_name lib (Some n) =
     (if n = [] then [] else if name_parts lib n = [] then [] else join_space (name_parts lib n))"
  by (simp add: normalize_team_name_def name_parts_def Let_def)

lemma name_parts_tokens:
  assumes "p \<in> set (name_parts lib n)"
  shows "p \<noteq> [] \<and> p \<notin> TEAM_STOP_WORDS \<and> (\<forall>c\<in>set p. in_class c \<and> \<not> py_isspace c)"
proof -
  let ?t = "sub_class False (str_lower lib (filter (\<lambda>ch. \<not> combining lib ch) (nfkd lib n)))"
  from assms have m: "p \<in> set (split_from [] ?t)" and a: "p \<noteq> []" "p \<notin> TEAM_STOP_WORDS"
    by (simp_all add: name_parts_def split_ws_def)
  from split_from_tokens[OF _ m] have "(\<forall>c\<in>set p. \<not> py_isspace c) \<and> set p \<subseteq> set ?t" by simp
  then show ?thesis using a sub_class_in_class[of _ False] by blast
qed

lemma normalize_fixed:
  assumes nf: "\<forall>s. (\<forall>c\<in>set s. in_class c) \<longrightarrow> nfkd lib s = s"
    and cb: "\<forall>c. in_class c \<longrightarrow> \<not> combining lib c"
    and lw: "\<forall>s. (\<forall>c\<in>set s. in_class c) \<longrightarrow> str_lower lib s = s"
    and ps: "\<forall>p\<in>set ps. p \<noteq> [] \<and> p \<notin> TEAM_STOP_WORDS
               \<and> (\<forall>c\<in>set p. in_class c \<and> \<not> py_isspace c)"
    and ne: "ps \<noteq> []"
  shows "normalize_team_name lib (Some (join_space ps)) = join_space ps"
proof -
  let ?s = "join_space ps"
  have cls: "\<forall>c\<in>set ?s. in_class c" using join_in_class[of ps] ps by blast
  have 1: "nfkd lib ?s = ?s" using nf cls by blast
  have 2: "filter (\<lambda>ch. \<not> combining lib ch) ?s = ?s" using cb cls by (simp add: filter_id_conv)
  have 3: "str_lower lib ?s = ?s" using lw cls by blast
  have 4: "sub_class False ?s = ?s" using sub_class_id[OF cls] .
  have 5: "split_ws ?s = ps" using split_join[of ps] ps by blast
  have 6: "filter (\<lambda>p. p \<noteq> [] \<and> p \<notin> TEAM_STOP_WORDS) ps = ps"
    using ps by (simp add: filter_id_conv)
  have "name_parts lib ?s = ps" by (simp add: name_parts_def 1 2 3 4 5 6)
  moreover have "?s \<noteq> []" using join_nonempty[OF ne] ps by blast
  ultimately show ?thesis using ne by (simp add: normalize_parts)
qed

lemma ascii_lower_in_class: "in_class c \<Longrightarrow> ascii_lower c = c"
  by (auto simp: in_class_def ascii_lower_def Let_def)

lemma sample_lib_lower: "\<forall>s. (\<forall>c\<in>set s. in_class c) \<longrightarrow> str_lower sample_lib s = s"
  by (simp add: sample_lib_def ascii_lower_in_class map_idI)

text \<open>
  C8. \<^verbatim>\<open>normalize_team_name\<close> is idempotent: normalizing the result of a normalization
  returns that result unchanged, for every input (an absent name included). The Unicode
  functions of the standard library are the parameters \<open>nfkd\<close>, \<open>combining\<close> and
  \<open>str_lower\<close>; the three hypotheses state what Unicode fixes for them on text of lower-case
  ASCII letters, digits and spaces: NFKD and lower-casing leave such text as it is, and none
  of these characters is a combining mark.
\<close>

theorem normalize_team_name_idempotent:
  assumes nf: "\<forall>s. (\<forall>c\<in>set s. in_class c) \<longrightarrow> nfkd lib s = s"
    and cb: "\<forall>c. in_class c \<longrightarrow> \<not> combining lib c"
    and lw: "\<forall>s. (\<forall>c\<in>set s. in_class c) \<longrightarrow> str_lower lib s = s"
  shows "normalize_team_name lib (Some (normalize_team_name lib name)) =
           normalize_team_name lib name"
proof (cases name)
  case None
  then show ?thesis by (simp add: normalize_team_name_def)
next
  case (Some n)
  show ?thesis
  proof (cases "n = [] \<or> name_parts lib n = []")
    case True
    then show ?thesis using Some by (auto simp: normalize_parts)
  next
    case False
    then have r: "normalize_team_name lib name = join_space (name_parts lib n)"
      using Some by (simp add: normalize_parts)
    have "\<forall>p\<in>set (name_parts lib n). p \<noteq> [] \<and> p \<notin> TEAM_STOP_WORDS
            \<and> (\<forall>c\<in>set p. in_class c \<and> \<not> py_isspace c)"
      using name_parts_tokens by blast
    from normalize_fixed[OF nf cb lw this] False show ?thesis by (simp add: r)
  qed
qed

theorem normalize_team_name_idempotent_witness:
  "normalize_team_name sample_lib (Some ''Real  Madrid C.F.'') = ''real madrid c f'' \<and>
   normalize_team_name sample_lib (Some (normalize_team_name sample_lib (Some ''Real  Madrid C.F.'')))
     = normalize_team_name sample_lib (Some ''Real  Madrid C.F.'')"
proof -
  have nf: "\<forall>s. (\<forall>c\<in>set s. in_class c) \<longrightarrow> nfkd sample_lib s = s"
    by (simp add: sample_lib_def)
  have cb: "\<forall>c. in_class c \<longrightarrow> \<not> combining sample_lib c"
    by (simp add: sample_lib_def)
  have ev: "normalize_team_name sample_lib (Some ''Real  Madrid C.F.'') = ''real madrid c f''"
    by code_simp
  from ev
    normalize_team_name_idempotent[OF nf cb sample_lib_lower, of "Some ''Real  Madrid C.F.''"]
  show ?thesis by blast
qed

subsection \<open>The quality gate\<close>

lemma gate_loop_filter:
  "gate_loop lib mx ref inc_s inc_c rows kept ds dc =
     (kept @ filter (\<lambda>c. \<not> conflict_dropped inc_c c \<and> \<not> stale_dropped inc_s c)
               (map (gate_annotate lib mx ref) rows),
      ds + length (filter (\<lambda>c. \<not> conflict_dropped inc_c c \<and> stale_dropped inc_s c)
               (map (gate_annotate lib mx ref) rows)),
      dc + length (filter (conflict_dropped inc_c) (map (gate_annotate lib mx ref) rows)))"
proof (induction rows arbitrary: kept ds dc)
  case Nil
  show ?case by simp
next
  case (Cons r rows)
  let ?c = "gate_annotate lib mx ref r"
  show ?case
  proof (cases "conflict_dropped inc_c ?c")
    case True
    then have "verification ?c = Some ''score_conflict'' \<and> \<not> inc_c"
      by (simp add: conflict_dropped_def)
    then have step: "gate_loop lib mx ref inc_s inc_c (r # rows) kept ds dc =
        gate_loop lib mx ref inc_s inc_c rows kept ds (dc + 1)"
      by (simp add: Let_def)
    show ?thesis by (simp only: step Cons.IH) (simp add: True)
  next
    case False
    then have nc: "\<not> (verification ?c = Some ''score_conflict'' \<and> \<not> inc_c)"
      by (simp add: conflict_dropped_def)
    show ?thesis
    proof (cases "stale_dropped inc_s ?c")
      case True
      then have "is_stale ?c = Some True \<and> \<not> inc_s" by (simp add: stale_dropped_def)
      with nc have step: "gate_loop lib mx ref inc_s inc_c (r # rows) kept ds dc =
          gate_loop lib mx ref inc_s inc_c rows kept (ds + 1) dc"
        by (auto simp: Let_def)
      show ?thesis by (simp only: step Cons.IH) (simp add: True False)
    next
      case ns: False
      then have "\<not> (is_stale ?c = Some True \<and> \<not> inc_s)" by (simp add: stale_dropped_def)
      with nc have step: "gate_loop lib mx ref inc_s inc_c (r # rows) kept ds dc =
          gate_loop lib mx ref inc_s inc_c rows (kept @ [?c]) ds dc"
        by (auto simp: Let_def)
      show ?thesis by (simp only: step Cons.IH) (simp add: ns False)
    qed
  qed
qed

lemma annotate_verification: "verification (gate_annotate lib mx ref r) = verification r"
  by (simp add: gate_annotate_def Let_def)

lemma annotate_is_stale:
  "is_stale (gate_annotate lib mx ref r) =
     Some (str_lower lib (str_or (status r) ''unknown'') = ''live'' \<and>
           (case age_of lib ref r of None \<Rightarrow> True | Some age \<Rightarrow> age > real_of_int mx))"
  by (simp add: gate_annotate_def Let_def)

lemma annotate_age: "last_update_age_seconds (gate_annotate lib mx ref r) = age_of lib ref r"
  by (simp add: gate_annotate_def Let_def)

lemma gate_result:
  assumes "reference_time lib generated_at_utc now_iso = Some ref"
  shows "apply_quality_gate lib mx now_iso matches generated_at_utc inc_s inc_c =
     (filter (\<lambda>c. \<not> conflict_dropped inc_c c \<and> \<not> stale_dropped inc_s c)
        (map (gate_annotate lib mx ref) matches),
      length (filter (\<lambda>c. \<not> conflict_dropped inc_c c \<and> stale_dropped inc_s c)
        (map (gate_annotate lib mx ref) matches)),
      length (filter (conflict_dropped inc_c) (map (gate_annotate lib mx ref) matches)))"
  using assms by (simp add: apply_quality_gate_def gate_loop_filter)

lemma sample_ref:
  "reference_time sample_lib (Some ''2024-05-01T18:20:00Z'') ''2024-05-01T18:20:00Z'' = Some 1714587600"
  by code_simp

text \<open>
  C1, as stated: a row that is in conflict and stale, met with both include flags off, would
  be counted once in the dropped-conflicts counter and once in the dropped-stale counter.
  The loop tests the conflict first and goes on to the next row (line 443) before the
  staleness test is reached: for the one row below, in conflict and stale, the gate returns
  no row, a dropped-stale count of 0 and a dropped-conflicts count of 1.
\<close>

theorem conflict_and_stale_counted_twice_counterexample:
  "verification conflicted_stale_row = Some ''score_conflict'' \<and>
   is_stale (gate_annotate sample_lib 180 1714587600 conflicted_stale_row) = Some True \<and>
   apply_quality_gate sample_lib 180 ''2024-05-01T18:20:00Z'' [conflicted_stale_row]
     (Some ''2024-05-01T18:20:00Z'') False False = ([], 0, 1)"
  by code_simp

text \<open>
  C1, amended: with both include flags off, the gate keeps the annotated rows that are
  neither in conflict nor stale; it counts every row in conflict in the dropped-conflicts
  counter, whether the row is stale or not, and it counts in the dropped-stale counter the
  stale rows that are not in conflict. A row in conflict and stale is thus excluded and
  counted once, as a conflict.
\<close>

theorem conflict_before_stale:
  assumes "reference_time lib generated_at_utc now_iso = Some ref"
    and "apply_quality_gate lib mx now_iso matches generated_at_utc False False =
           (kept, dropped_stale, dropped_conflicts)"
  shows "kept = filter (\<lambda>c. verification c \<noteq> Some ''score_conflict'' \<and> is_stale c \<noteq> Some True)
                  (map (gate_annotate lib mx ref) matches)
       \<and> dropped_conflicts =
           length (filter (\<lambda>r. verification r = Some ''score_conflict'') matches)
       \<and> dropped_stale =
           length (filter (\<lambda>c. verification c \<noteq> Some ''score_conflict'' \<and> is_stale c = Some True)
                     (map (gate_annotate lib mx ref) matches))"
proof -
  have v: "(\<lambda>r. verification (gate_annotate lib mx ref r) = Some ''score_conflict'')
             = (\<lambda>r. verification r = Some ''score_conflict'')"
    by (simp add: annotate_verification)
  from assms(2) show ?thesis
    unfolding gate_result[OF assms(1)]
    by (simp add: conflict_dropped_def stale_dropped_def filter_map comp_def v)
qed

theorem conflict_before_stale_witness:
  "[] = filter (\<lambda>c. verification c \<noteq> Some ''score_conflict'' \<and> is_stale c \<noteq> Some True)
          (map (gate_annotate sample_lib 180 1714587600)
             [conflicted_stale_row, conflicted_stale_row\<lparr>verification := Some ''single_source''\<rparr>])
   \<and> (1::nat) = length (filter (\<lambda>r. verification r = Some ''score_conflict'')
             [conflicted_stale_row, conflicted_stale_row\<lparr>verification := Some ''single_source''\<rparr>])
   \<and> (1::nat) = length (filter (\<lambda>c. verification c \<noteq> Some ''score_conflict'' \<and> is_stale c = Some True)
          (map (gate_annotate sample_lib 180 1714587600)
             [conflicted_stale_row, conflicted_stale_row\<lparr>verification := Some ''single_source''\<rparr>]))"
proof -
  have e: "apply_quality_gate sample_lib 180 ''2024-05-01T18:20:00Z''
     [conflicted_stale_row, conflicted_stale_row\<lparr>verification := Some ''single_source''\<rparr>]
     (Some ''2024-05-01T18:20:00Z'') False False = ([], 1, 1)"
    by code_simp
  show ?thesis by (rule conflict_before_stale[OF sample_ref e])
qed

lemma gate_rows_map:
  assumes "reference_time lib generated_at_utc now_iso = Some ref"
  shows "gate_rows lib mx now_iso matches generated_at_utc = map (gate_annotate lib mx ref) matches"
  unfolding gate_rows_def gate_result[OF assms]
  by (simp add: conflict_dropped_def stale_dropped_def)

lemma annotate_row:
  "gate_annotate lib mx ref r =
     r\<lparr>last_update_age_seconds :=
         map_option (\<lambda>lu. max 0 (ref - lu)) (parse_iso_utc lib (last_updated_utc r)),
       is_stale :=
         Some (str_lower lib (str_or (status r) ''unknown'') = ''live'' \<and>
               (case parse_iso_utc lib (last_updated_utc r) of
                  None \<Rightarrow> True | Some lu \<Rightarrow> max 0 (ref - lu) > real_of_int mx)),
       staleness_reason :=
         (if str_lower lib (str_or (status r) ''unknown'') = ''live'' \<and>
               (case parse_iso_utc lib (last_updated_utc r) of
                  None \<Rightarrow> True | Some lu \<Rightarrow> max 0 (ref - lu) > real_of_int mx)
          then Some (if parse_iso_utc lib (last_updated_utc r) = None
                     then ''missing_last_update''
                     else ''older_than_'' @ str_of_int mx @ ''_seconds'')
          else staleness_reason r)\<rparr>"
  by (cases "parse_iso_utc lib (last_updated_utc r)")
     (simp_all add: gate_annotate_def age_of_def Let_def)

text \<open>
  C7. Whenever the gate has a reference time, it annotates every row of its input, in order:
  the list it returns with both include flags on has the length of the input and its row
  \<open>i\<close> is the input row \<open>i\<close> with its age, its staleness and, when stale, the reason
  written. The row is marked stale exactly when its status (an absent one read as unknown,
  lower-cased) is live and its age is absent or above the threshold. A row whose status is
  not live is marked not stale whatever its age, and the gate keeps it when stale rows are
  excluded. With any flags, the gate returns these same annotated rows, less the ones the
  flags drop, and the two counts of the dropped rows.
\<close>

theorem stale_iff_live_and_old:
  assumes "reference_time lib generated_at_utc now_iso = Some ref"
  shows "length (gate_rows lib mx now_iso matches generated_at_utc) = length matches
   \<and> (\<forall>i<length matches.
         gate_rows lib mx now_iso matches generated_at_utc ! i =
           (matches ! i)\<lparr>last_update_age_seconds :=
               map_option (\<lambda>lu. max 0 (ref - lu))
                 (parse_iso_utc lib (last_updated_utc (matches ! i))),
             is_stale :=
               Some (str_lower lib (str_or (status (matches ! i)) ''unknown'') = ''live'' \<and>
                     (case parse_iso_utc lib (last_updated_utc (matches ! i)) of
                        None \<Rightarrow> True | Some lu \<Rightarrow> max 0 (ref - lu) > real_of_int mx)),
             staleness_reason :=
               (if str_lower lib (str_or (status (matches ! i)) ''unknown'') = ''live'' \<and>
                     (case parse_iso_utc lib (last_updated_utc (matches ! i)) of
                        None \<Rightarrow> True | Some lu \<Rightarrow> max 0 (ref - lu) > real_of_int mx)
                then Some (if parse_iso_utc lib (last_updated_utc (matches ! i)) = None
                           then ''missing_last_update''
                           else ''older_than_'' @ str_of_int mx @ ''_seconds'')
                else staleness_reason (matches ! i))\<rparr>)
   \<and> (\<forall>i<length matches.
         is_stale (gate_rows lib mx now_iso matches generated_at_utc ! i) =
           Some (str_lower lib (str_or (status (matches ! i)) ''unknown'') = ''live'' \<and>
                 (case parse_iso_utc lib (last_updated_utc (matches ! i)) of
                    None \<Rightarrow> True | Some lu \<Rightarrow> max 0 (ref - lu) > real_of_int mx)))
   \<and> (\<forall>i<length matches.
         str_lower lib (str_or (status (matches ! i)) ''unknown'') \<noteq> ''live'' \<longrightarrow>
           is_stale (gate_rows lib mx now_iso matches generated_at_utc ! i) = Some False
           \<and> gate_rows lib mx now_iso matches generated_at_utc ! i
               \<in> set (fst (apply_quality_gate lib mx now_iso matches generated_at_utc
                               False True)))
   \<and> apply_quality_gate lib mx now_iso matches generated_at_utc include_stale include_conflicts =
       (filter (\<lambda>c. \<not> conflict_dropped include_conflicts c \<and> \<not> stale_dropped include_stale c)
          (gate_rows lib mx now_iso matches generated_at_utc),
        length (filter (\<lambda>c. \<not> conflict_dropped include_conflicts c \<and> stale_dropped include_stale c)
          (gate_rows lib mx now_iso matches generated_at_utc)),
        length (filter (conflict_dropped include_conflicts)
          (gate_rows lib mx now_iso matches generated_at_utc)))"
proof -
  let ?G = "gate_rows lib mx now_iso matches generated_at_utc"
  have G: "?G = map (gate_annotate lib mx ref) matches" by (rule gate_rows_map[OF assms])
  have 1: "length ?G = length matches" by (simp add: G)
  have 2: "\<forall>i<length matches. ?G ! i = gate_annotate lib mx ref (matches ! i)" by (simp add: G)
  have 3: "\<forall>i<length matches.
         is_stale (?G ! i) =
           Some (str_lower lib (str_or (status (matches ! i)) ''unknown'') = ''live'' \<and>
                 (case parse_iso_utc lib (last_updated_utc (matches ! i)) of
                    None \<Rightarrow> True | Some lu \<Rightarrow> max 0 (ref - lu) > real_of_int mx))"
    using 2 by (simp add: annotate_row)
  have 5: "apply_quality_gate lib mx now_iso matches generated_at_utc include_stale include_conflicts =
       (filter (\<lambda>c. \<not> conflict_dropped include_conflicts c \<and> \<not> stale_dropped include_stale c) ?G,
        length (filter (\<lambda>c. \<not> conflict_dropped include_conflicts c \<and> stale_dropped include_stale c) ?G),
        length (filter (conflict_dropped include_conflicts) ?G))"
    unfolding G by (rule gate_result[OF assms])
  have 4: "\<forall>i<length matches.
         str_lower lib (str_or (status (matches ! i)) ''unknown'') \<noteq> ''live'' \<longrightarrow>
           is_stale (?G ! i) = Some False
           \<and> ?G ! i \<in> set (fst (apply_quality_gate lib mx now_iso matches generated_at_utc
                               False True))"
  proof (intro allI impI)
    fix i assume i: "i < length matches"
      and nl: "str_lower lib (str_or (status (matches ! i)) ''unknown'') \<noteq> ''live''"
    from 3 i nl have f: "is_stale (?G ! i) = Some False" by simp
    from i 1 have m: "?G ! i \<in> set ?G" by simp
    have "fst (apply_quality_gate lib mx now_iso matches generated_at_utc False True) =
        filter (\<lambda>c. \<not> conflict_dropped True c \<and> \<not> stale_dropped False c) ?G"
      unfolding G gate_result[OF assms] by simp
    with f m show "is_stale (?G ! i) = Some False
           \<and> ?G ! i \<in> set (fst (apply_quality_gate lib mx now_iso matches generated_at_utc
                               False True))"
      by (simp add: conflict_dropped_def stale_dropped_def)
  qed
  have rowfact: "\<forall>i<length matches.
         ?G ! i =
           (matches ! i)\<lparr>last_update_age_seconds :=
               map_option (\<lambda>lu. max 0 (ref - lu))
                 (parse_iso_utc lib (last_updated_utc (matches ! i))),
             is_stale :=
               Some (str_lower lib (str_or (status (matches ! i)) ''unknown'') = ''live'' \<and>
                     (case parse_iso_utc lib (last_updated_utc (matches ! i)) of
                        None \<Rightarrow> True | Some lu \<Rightarrow> max 0 (ref - lu) > real_of_int mx)),
             staleness_reason :=
               (if str_lower lib (str_or (status (matches ! i)) ''unknown'') = ''live'' \<and>
                     (case parse_iso_utc lib (last_updated_utc (matches ! i)) of
                        None \<Rightarrow> True | Some lu \<Rightarrow> max 0 (ref - lu) > real_of_int mx)
                then Some (if parse_iso_utc lib (last_updated_utc (matches ! i)) = None
                           then ''missing_last_update''
                           else ''older_than_'' @ str_of_int mx @ ''_seconds'')
                else staleness_reason (matches ! i))\<rparr>"
    using 2 annotate_row by simp
  from 1 rowfact 3 4 5 show ?thesis by blast
qed

theorem stale_iff_live_and_old_witness:
  "is_stale (gate_rows sample_lib 60 ''2024-05-01T18:20:00Z'' [sample_goal, sample_finished]
               (Some ''2024-05-01T18:20:00Z'') ! 0) = Some True
   \<and> last_update_age_seconds
        (gate_rows sample_lib 60 ''2024-05-01T18:20:00Z'' [sample_goal, sample_finished]
               (Some ''2024-05-01T18:20:00Z'') ! 0) = Some 1200
   \<and> staleness_reason
        (gate_rows sample_lib 60 ''2024-05-01T18:20:00Z'' [sample_goal, sample_finished]
               (Some ''2024-05-01T18:20:00Z'') ! 0) = Some ''older_than_60_seconds''
   \<and> is_stale (gate_rows sample_lib 60 ''2024-05-01T18:20:00Z'' [sample_goal, sample_finished]
               (Some ''2024-05-01T18:20:00Z'') ! 1) = Some False
   \<and> apply_quality_gate sample_lib 60 ''2024-05-01T18:20:00Z'' [sample_goal, sample_finished]
        (Some ''2024-05-01T18:20:00Z'') False False =
       ([gate_rows sample_lib 60 ''2024-05-01T18:20:00Z'' [sample_goal, sample_finished]
               (Some ''2024-05-01T18:20:00Z'') ! 1], 1, 0)"
proof -
  let ?m = "[sample_goal, sample_finished]"
  let ?G = "gate_rows sample_lib 60 ''2024-05-01T18:20:00Z'' ?m (Some ''2024-05-01T18:20:00Z'')"
  note t = stale_iff_live_and_old[OF sample_ref, of 60 ?m False False]
  have live: "str_lower sample_lib (str_or (status (?m ! 0)) ''unknown'') = ''live'' \<and>
        (case parse_iso_utc sample_lib (last_updated_utc (?m ! 0)) of
           None \<Rightarrow> True | Some lu \<Rightarrow> max 0 (1714587600 - lu) > real_of_int 60)"
    by code_simp
  have fin: "str_lower sample_lib (str_or (status (?m ! 1)) ''unknown'') \<noteq> ''live''"
    by code_simp
  from t have "\<forall>i<length ?m. is_stale (?G ! i) =
           Some (str_lower sample_lib (str_or (status (?m ! i)) ''unknown'') = ''live'' \<and>
                 (case parse_iso_utc sample_lib (last_updated_utc (?m ! i)) of
                    None \<Rightarrow> True | Some lu \<Rightarrow> max 0 (1714587600 - lu) > real_of_int 60))"
    by blast
  then have "is_stale (?G ! 0) =
           Some (str_lower sample_lib (str_or (status (?m ! 0)) ''unknown'') = ''live'' \<and>
                 (case parse_iso_utc sample_lib (last_updated_utc (?m ! 0)) of
                    None \<Rightarrow> True | Some lu \<Rightarrow> max 0 (1714587600 - lu) > real_of_int 60))"
    by (simp del: nth_Cons_0)
  with live have 1: "is_stale (?G ! 0) = Some True" by (simp only: simp_thms)
  from t have "\<forall>i<length ?m.
         str_lower sample_lib (str_or (status (?m ! i)) ''unknown'') \<noteq> ''live'' \<longrightarrow>
           is_stale (?G ! i) = Some False
           \<and> ?G ! i \<in> set (fst (apply_quality_gate sample_lib 60 ''2024-05-01T18:20:00Z'' ?m
                 (Some ''2024-05-01T18:20:00Z'') False True))"
    by blast
  then have "str_lower sample_lib (str_or (status (?m ! 1)) ''unknown'') \<noteq> ''live'' \<longrightarrow>
           is_stale (?G ! 1) = Some False
           \<and> ?G ! 1 \<in> set (fst (apply_quality_gate sample_lib 60 ''2024-05-01T18:20:00Z'' ?m
                 (Some ''2024-05-01T18:20:00Z'') False True))"
    by (simp del: nth_Cons_Suc One_nat_def)
  with fin have 2: "is_stale (?G ! 1) = Some False" by blast
  have 3: "last_update_age_seconds (?G ! 0) = Some 1200
     \<and> staleness_reason (?G ! 0) = Some ''older_than_60_seconds''
     \<and> apply_quality_gate sample_lib 60 ''2024-05-01T18:20:00Z'' ?m
          (Some ''2024-05-01T18:20:00Z'') False False = ([?G ! 1], 1, 0)"
    by code_simp
  from 1 2 3 show ?thesis by blast
qed

subsection \<open>The record linker\<close>

lemma scan_mono:
  "\<exists>l. scan_candidates lib mmd bi base used ci cands (Some b) = Some l
       \<and> link_similarity b \<le> link_similarity l
       \<and> (l \<noteq> b \<longrightarrow> link_similarity b < link_similarity l \<and> ci \<le> candidate_index l)"
proof (induction cands arbitrary: ci b)
  case Nil
  show ?case by simp
next
  case (Cons c cands)
  show ?case
  proof (cases "ci \<in> used")
    case True
    with Cons.IH[of "Suc ci" b] show ?thesis by auto
  next
    case False
    show ?thesis
    proof (cases "score_candidate lib mmd base c")
      case None
      with False Cons.IH[of "Suc ci" b] show ?thesis by auto
    next
      case (Some p)
      obtain sim sw where p: "p = (sim, sw)" by (cases p)
      show ?thesis
      proof (cases "sim > link_similarity b")
        case True
        let ?b' = "\<lparr>base_index = bi, candidate_index = ci, link_similarity = sim, swapped = sw\<rparr>"
        from Cons.IH[of "Suc ci" ?b'] obtain l where
          l: "scan_candidates lib mmd bi base used (Suc ci) cands (Some ?b') = Some l"
             "link_similarity ?b' \<le> link_similarity l"
             "l \<noteq> ?b' \<longrightarrow> link_similarity ?b' < link_similarity l \<and> Suc ci \<le> candidate_index l"
          by blast
        have eq: "scan_candidates lib mmd bi base used ci (c # cands) (Some b) = Some l"
          using False Some p True l(1) by simp
        have "ci \<le> candidate_index l" using l(3) by (cases "l = ?b'") auto
        with eq l(2) True show ?thesis by auto
      next
        case F: False
        from Cons.IH[of "Suc ci" b] obtain l where
          l: "scan_candidates lib mmd bi base used (Suc ci) cands (Some b) = Some l"
             "link_similarity b \<le> link_similarity l"
             "l \<noteq> b \<longrightarrow> link_similarity b < link_similarity l \<and> Suc ci \<le> candidate_index l"
          by blast
        have eq: "scan_candidates lib mmd bi base used ci (c # cands) (Some b) = Some l"
          using False Some p F l(1) by simp
        with l(2,3) show ?thesis by auto
      qed
    qed
  qed
qed

lemma scan_step:
  "scan_candidates lib mmd bi base used ci (c # cands) best =
     scan_candidates lib mmd bi base used (Suc ci) cands
       (if ci \<in> used then best
        else case score_candidate lib mmd base c of
               None \<Rightarrow> best
             | Some (sim, sw) \<Rightarrow>
                 if best = None \<or> sim > link_similarity (the best)
                 then Some \<lparr>base_index = bi, candidate_index = ci,
                            link_similarity = sim, swapped = sw\<rparr>
                 else best)"
  by (auto split: option.splits prod.splits)

lemma scan_sound:
  "scan_candidates lib mmd bi base used ci cands best = Some l \<Longrightarrow>
     best = Some l \<or>
     (base_index l = bi \<and> ci \<le> candidate_index l \<and> candidate_index l < ci + length cands
      \<and> candidate_index l \<notin> used
      \<and> score_candidate lib mmd base (cands ! (candidate_index l - ci))
            = Some (link_similarity l, swapped l))"
proof (induction cands arbitrary: ci best)
  case Nil
  then show ?case by simp
next
  case (Cons c cands)
  let ?best' = "(if ci \<in> used then best
        else case score_candidate lib mmd base c of
               None \<Rightarrow> best
             | Some (sim, sw) \<Rightarrow>
                 if best = None \<or> sim > link_similarity (the best)
                 then Some \<lparr>base_index = bi, candidate_index = ci,
                            link_similarity = sim, swapped = sw\<rparr>
                 else best)"
  from Cons.prems have r: "scan_candidates lib mmd bi base used (Suc ci) cands ?best' = Some l"
    by (simp only: scan_step)
  from Cons.IH[OF r] consider (old) "?best' = Some l"
    | (new) "base_index l = bi" "Suc ci \<le> candidate_index l"
        "candidate_index l < Suc ci + length cands" "candidate_index l \<notin> used"
        "score_candidate lib mmd base (cands ! (candidate_index l - Suc ci))
            = Some (link_similarity l, swapped l)"
    by blast
  then show ?case
  proof cases
    case old
    then show ?thesis
      by (auto split: if_splits option.splits prod.splits)
  next
    case new
    from new(2) have "(c # cands) ! (candidate_index l - ci) = cands ! (candidate_index l - Suc ci)"
      by (simp add: nth_Cons')
    with new show ?thesis by auto
  qed
qed

lemma scan_max:
  assumes "scan_candidates lib mmd bi base used ci cands best = Some l"
    and "\<forall>b. best = Some b \<longrightarrow> candidate_index b < ci"
    and "j < length cands" and "ci + j \<notin> used"
    and "score_candidate lib mmd base (cands ! j) = Some (s, sw)"
  shows "s \<le> link_similarity l \<and> (ci + j < candidate_index l \<longrightarrow> s < link_similarity l)"
  using assms
proof (induction cands arbitrary: ci best j)
  case Nil
  then show ?case by simp
next
  case (Cons c cands)
  let ?best' = "(if ci \<in> used then best
        else case score_candidate lib mmd base c of
               None \<Rightarrow> best
             | Some (sim, sw) \<Rightarrow>
                 if best = None \<or> sim > link_similarity (the best)
                 then Some \<lparr>base_index = bi, candidate_index = ci,
                            link_similarity = sim, swapped = sw\<rparr>
                 else best)"
  from Cons.prems(1) have r: "scan_candidates lib mmd bi base used (Suc ci) cands ?best' = Some l"
    by (simp only: scan_step)
  have inv: "\<forall>b. ?best' = Some b \<longrightarrow> candidate_index b < Suc ci"
    using Cons.prems(2) by (auto split: option.splits prod.splits simp: less_Suc_eq)
  show ?case
  proof (cases j)
    case (Suc j')
    with Cons.prems have "j' < length cands" "Suc ci + j' \<notin> used"
      "score_candidate lib mmd base (cands ! j') = Some (s, sw)" by simp_all
    from Cons.IH[OF r inv this] Suc show ?thesis by simp
  next
    case 0
    with Cons.prems have nu: "ci \<notin> used" and sc: "score_candidate lib mmd base c = Some (s, sw)"
      by simp_all
    show ?thesis
    proof (cases "best = None \<or> s > link_similarity (the best)")
      case True
      let ?b' = "\<lparr>base_index = bi, candidate_index = ci, link_similarity = s, swapped = sw\<rparr>"
      from True nu sc have "?best' = Some ?b'" by simp
      with r have r': "scan_candidates lib mmd bi base used (Suc ci) cands (Some ?b') = Some l"
        by simp
      from scan_mono[of lib mmd bi base used "Suc ci" cands ?b'] r'
      have "link_similarity ?b' \<le> link_similarity l"
        and "l \<noteq> ?b' \<longrightarrow> link_similarity ?b' < link_similarity l" by auto
      then show ?thesis using 0 by (cases "l = ?b'") auto
    next
      case False
      then obtain b where b: "best = Some b" and le: "s \<le> link_similarity b" by auto
      from False nu sc b have "?best' = Some b" by simp
      with r have r': "scan_candidates lib mmd bi base used (Suc ci) cands (Some b) = Some l"
        by simp
      from scan_mono[of lib mmd bi base used "Suc ci" cands b] r'
      have m: "link_similarity b \<le> link_similarity l"
        and st: "l \<noteq> b \<longrightarrow> link_similarity b < link_similarity l" by auto
      from Cons.prems(2) b have "candidate_index b < ci" by simp
      then have "ci + j < candidate_index l \<longrightarrow> l \<noteq> b" by auto
      with le m st show ?thesis by auto
    qed
  qed
qed

lemma link_rows_spec:
  "\<exists>new. link_rows lib mmd mins bi bases cands used links = links @ new \<and>
     sorted_wrt (<) (map base_index new) \<and>
     (\<forall>l\<in>set new. bi \<le> base_index l \<and> base_index l < bi + length bases
        \<and> mins \<le> link_similarity l
        \<and> scan_candidates lib mmd (base_index l) (bases ! (base_index l - bi))
             (used \<union> earlier_claims new (base_index l)) 0 cands None = Some l)"
proof (induction bases arbitrary: bi used links)
  case Nil
  show ?case by simp
next
  case (Cons base rest)
  let ?r = "scan_candidates lib mmd bi base used 0 cands None"
  have shift: "\<And>k. Suc bi \<le> k \<Longrightarrow> (base # rest) ! (k - bi) = rest ! (k - Suc bi)"
    by (simp add: nth_Cons')
  show ?case
  proof (cases "\<exists>best. ?r = Some best \<and> \<not> link_similarity best < mins")
    case False
    then have eq: "link_rows lib mmd mins bi (base # rest) cands used links =
        link_rows lib mmd mins (Suc bi) rest cands used links"
      by (auto split: option.splits)
    from Cons.IH[of "Suc bi" used links] obtain new where
      n: "link_rows lib mmd mins (Suc bi) rest cands used links = links @ new"
         "sorted_wrt (<) (map base_index new)"
         "\<forall>l\<in>set new. Suc bi \<le> base_index l \<and> base_index l < Suc bi + length rest
            \<and> mins \<le> link_similarity l
            \<and> scan_candidates lib mmd (base_index l) (rest ! (base_index l - Suc bi))
                 (used \<union> earlier_claims new (base_index l)) 0 cands None = Some l"
      by blast
    have all: "\<forall>l\<in>set new. bi \<le> base_index l \<and> base_index l < bi + length (base # rest)
        \<and> mins \<le> link_similarity l
        \<and> scan_candidates lib mmd (base_index l) ((base # rest) ! (base_index l - bi))
             (used \<union> earlier_claims new (base_index l)) 0 cands None = Some l"
    proof
      fix l assume l: "l \<in> set new"
      with n(3) have a: "Suc bi \<le> base_index l" by blast
      from n(3) l shift[OF a] show "bi \<le> base_index l \<and> base_index l < bi + length (base # rest)
        \<and> mins \<le> link_similarity l
        \<and> scan_candidates lib mmd (base_index l) ((base # rest) ! (base_index l - bi))
             (used \<union> earlier_claims new (base_index l)) 0 cands None = Some l"
        by auto
    qed
    show ?thesis
      by (rule exI[of _ new], intro conjI, simp only: eq n(1), rule n(2), rule all)
  next
    case True
    then obtain best where b: "?r = Some best" and ok: "\<not> link_similarity best < mins" by blast
    from scan_sound[OF b] have bb: "base_index best = bi" by simp
    have eq: "link_rows lib mmd mins bi (base # rest) cands used links =
        link_rows lib mmd mins (Suc bi) rest cands (insert (candidate_index best) used)
          (links @ [best])"
      using b ok by simp
    from Cons.IH[of "Suc bi" "insert (candidate_index best) used" "links @ [best]"] obtain new where
      n: "link_rows lib mmd mins (Suc bi) rest cands (insert (candidate_index best) used)
            (links @ [best]) = (links @ [best]) @ new"
         "sorted_wrt (<) (map base_index new)"
         "\<forall>l\<in>set new. Suc bi \<le> base_index l \<and> base_index l < Suc bi + length rest
            \<and> mins \<le> link_similarity l
            \<and> scan_candidates lib mmd (base_index l) (rest ! (base_index l - Suc bi))
                 (insert (candidate_index best) used \<union> earlier_claims new (base_index l))
                 0 cands None = Some l"
      by blast
    have none_before: "earlier_claims (best # new) bi = {}"
      using n(3) bb by (auto simp: earlier_claims_def)
    have after: "\<And>l. l \<in> set new \<Longrightarrow>
        used \<union> earlier_claims (best # new) (base_index l)
          = insert (candidate_index best) used \<union> earlier_claims new (base_index l)"
    proof -
      fix l assume "l \<in> set new"
      with n(3) have "bi < base_index l" by auto
      with bb show "used \<union> earlier_claims (best # new) (base_index l)
          = insert (candidate_index best) used \<union> earlier_claims new (base_index l)"
        by (auto simp: earlier_claims_def)
    qed
    have srt: "sorted_wrt (<) (map base_index (best # new))"
      using n(2,3) bb by auto
    have all: "\<forall>l\<in>set (best # new). bi \<le> base_index l \<and> base_index l < bi + length (base # rest)
        \<and> mins \<le> link_similarity l
        \<and> scan_candidates lib mmd (base_index l) ((base # rest) ! (base_index l - bi))
             (used \<union> earlier_claims (best # new) (base_index l)) 0 cands None = Some l"
    proof
      fix l assume "l \<in> set (best # new)"
      then consider "l = best" | "l \<in> set new" by auto
      then show "bi \<le> base_index l \<and> base_index l < bi + length (base # rest)
        \<and> mins \<le> link_similarity l
        \<and> scan_candidates lib mmd (base_index l) ((base # rest) ! (base_index l - bi))
             (used \<union> earlier_claims (best # new) (base_index l)) 0 cands None = Some l"
      proof cases
        case 1
        with bb ok b none_before show ?thesis by simp
      next
        case 2
        with n(3) have a: "Suc bi \<le> base_index l" by blast
        from n(3) 2 shift[OF a] after[OF 2] show ?thesis by auto
      qed
    qed
    show ?thesis
      by (rule exI[of _ "best # new"], intro conjI, simp only: eq n(1) append_assoc append_Cons
          append_Nil, rule srt, rule all)
  qed
qed

lemma match_records_spec:
  "sorted_wrt (<) (map base_index (match_records lib bases cands mmd mins)) \<and>
   (\<forall>l\<in>set (match_records lib bases cands mmd mins).
      base_index l < length bases \<and> mins \<le> link_similarity l
      \<and> scan_candidates lib mmd (base_index l) (bases ! base_index l)
           (earlier_claims (match_records lib bases cands mmd mins) (base_index l))
           0 cands None = Some l)"
  using link_rows_spec[of lib mmd mins 0 bases cands "{}" "[]"]
  by (auto simp: match_records_def)

lemma link_facts:
  assumes "l \<in> set (match_records lib bases cands mmd mins)"
  shows "base_index l < length bases \<and> candidate_index l < length cands
       \<and> mins \<le> link_similarity l
       \<and> candidate_index l \<notin> earlier_claims (match_records lib bases cands mmd mins) (base_index l)
       \<and> score_candidate lib mmd (bases ! base_index l) (cands ! candidate_index l)
            = Some (link_similarity l, swapped l)"
proof -
  from match_records_spec[of lib bases cands mmd mins] assms
  have a: "base_index l < length bases" "mins \<le> link_similarity l"
    and sc: "scan_candidates lib mmd (base_index l) (bases ! base_index l)
           (earlier_claims (match_records lib bases cands mmd mins) (base_index l))
           0 cands None = Some l"
    by blast+
  from scan_sound[OF sc] a show ?thesis by simp
qed

lemma links_distinct_candidates:
  "distinct (map candidate_index (match_records lib bases cands mmd mins))"
proof -
  let ?L = "match_records lib bases cands mmd mins"
  have srt: "sorted_wrt (<) (map base_index ?L)"
    using match_records_spec[of lib bases cands mmd mins] by blast
  have "\<And>i j. i < j \<Longrightarrow> j < length ?L \<Longrightarrow> candidate_index (?L ! i) \<noteq> candidate_index (?L ! j)"
  proof -
    fix i j assume ij: "i < j" "j < length ?L"
    with srt have "map base_index ?L ! i < map base_index ?L ! j"
      by (simp add: sorted_wrt_iff_nth_less)
    with ij have lt: "base_index (?L ! i) < base_index (?L ! j)" by simp
    from ij have "?L ! i \<in> set ?L" by simp
    with lt have "candidate_index (?L ! i) \<in> earlier_claims ?L (base_index (?L ! j))"
      by (auto simp: earlier_claims_def)
    moreover from ij link_facts[of "?L ! j" lib bases cands mmd mins]
    have "candidate_index (?L ! j) \<notin> earlier_claims ?L (base_index (?L ! j))" by simp
    ultimately show "candidate_index (?L ! i) \<noteq> candidate_index (?L ! j)" by metis
  qed
  then have "\<And>i j. i < length ?L \<Longrightarrow> j < length ?L \<Longrightarrow> i \<noteq> j
      \<Longrightarrow> candidate_index (?L ! i) \<noteq> candidate_index (?L ! j)"
    by (metis nat_neq_iff)
  then show ?thesis by (simp add: distinct_conv_nth)
qed

lemma sample_links:
  "match_records sample_lib [sample_goal, sample_goal] [sample_espn, sample_espn] 180 0.76 =
     [\<lparr>base_index = 0, candidate_index = 0, link_similarity = 11 / 10, swapped = False\<rparr>,
      \<lparr>base_index = 1, candidate_index = 1, link_similarity = 11 / 10, swapped = False\<rparr>]"
  by code_simp

lemma sample_score:
  "score_candidate sample_lib 180 sample_goal sample_espn = Some (11 / 10, False)"
  by code_simp

text \<open>
  C4. For every base list and candidate list (and a maximal time gap other than 0, by which
  the code divides), the links that \<^verbatim>\<open>_match_records\<close> returns are one-to-one: no two of
  them share a base index and no two share a candidate index. They come in base-row order;
  every link points inside both lists and has a final score of at least the minimum
  similarity; and the candidate of a link is none of those claimed for an earlier base row.
\<close>

theorem match_records_one_to_one:
  assumes "max_minutes_diff \<noteq> 0"
  shows "distinct (map base_index (match_records lib base_rows candidate_rows max_minutes_diff min_similarity))
       \<and> distinct (map candidate_index (match_records lib base_rows candidate_rows max_minutes_diff min_similarity))
       \<and> sorted_wrt (<) (map base_index (match_records lib base_rows candidate_rows max_minutes_diff min_similarity))
       \<and> (\<forall>l\<in>set (match_records lib base_rows candidate_rows max_minutes_diff min_similarity).
             base_index l < length base_rows \<and> candidate_index l < length candidate_rows
             \<and> link_similarity l \<ge> min_similarity
             \<and> candidate_index l \<notin> earlier_claims
                  (match_records lib base_rows candidate_rows max_minutes_diff min_similarity)
                  (base_index l))"
proof -
  let ?L = "match_records lib base_rows candidate_rows max_minutes_diff min_similarity"
  have srt: "sorted_wrt (<) (map base_index ?L)"
    using match_records_spec[of lib base_rows candidate_rows max_minutes_diff min_similarity]
    by blast
  then have d: "distinct (map base_index ?L)" by (simp add: strict_sorted_iff)
  have "\<forall>l\<in>set ?L. base_index l < length base_rows \<and> candidate_index l < length candidate_rows
             \<and> link_similarity l \<ge> min_similarity
             \<and> candidate_index l \<notin> earlier_claims ?L (base_index l)"
    using link_facts[of _ lib base_rows candidate_rows max_minutes_diff min_similarity] by blast
  with d srt links_distinct_candidates show ?thesis by blast
qed

theorem match_records_one_to_one_witness:
  "match_records sample_lib [sample_goal, sample_goal] [sample_espn, sample_espn] 180 0.76 =
     [\<lparr>base_index = 0, candidate_index = 0, link_similarity = 11 / 10, swapped = False\<rparr>,
      \<lparr>base_index = 1, candidate_index = 1, link_similarity = 11 / 10, swapped = False\<rparr>]
   \<and> distinct (map base_index
        (match_records sample_lib [sample_goal, sample_goal] [sample_espn, sample_espn] 180 0.76))
   \<and> distinct (map candidate_index
        (match_records sample_lib [sample_goal, sample_goal] [sample_espn, sample_espn] 180 0.76))
   \<and> (1::nat) \<notin> earlier_claims
        (match_records sample_lib [sample_goal, sample_goal] [sample_espn, sample_espn] 180 0.76) 1"
proof -
  let ?L = "match_records sample_lib [sample_goal, sample_goal] [sample_espn, sample_espn] 180 0.76"
  let ?l = "\<lparr>base_index = 1, candidate_index = 1, link_similarity = 11 / 10, swapped = False\<rparr>"
  have nz: "(180::real) \<noteq> 0" by simp
  note t = match_records_one_to_one[OF nz, of sample_lib "[sample_goal, sample_goal]"
      "[sample_espn, sample_espn]" "0.76"]
  have m: "?l \<in> set ?L" unfolding sample_links by simp
  from t have "distinct (map base_index ?L)" and "distinct (map candidate_index ?L)"
    by blast+
  moreover from t m have "candidate_index ?l \<notin> earlier_claims ?L (base_index ?l)" by blast
  then have "(1::nat) \<notin> earlier_claims ?L 1" by simp
  ultimately show ?thesis using sample_links by blast
qed

text \<open>
  C9. Take a link that \<^verbatim>\<open>_match_records\<close> returns and any candidate not yet used when the
  base row of the link was scanned, that is, claimed by no link of an earlier base row, and
  not skipped for its time gap. The final score of that candidate is at most the score of
  the link, and where the two scores are equal the linked candidate has the smaller or the
  same index: among candidates of equal best score the first in the list is selected. The
  linker is a function of its inputs and of the library functions alone.
\<close>

theorem match_records_tie_break:
  assumes "max_minutes_diff \<noteq> 0"
    and "l \<in> set (match_records lib base_rows candidate_rows max_minutes_diff min_similarity)"
    and "j < length candidate_rows"
    and "j \<notin> earlier_claims
           (match_records lib base_rows candidate_rows max_minutes_diff min_similarity)
           (base_index l)"
    and "score_candidate lib max_minutes_diff (base_rows ! base_index l) (candidate_rows ! j)
           = Some (s, sw)"
  shows "score_candidate lib max_minutes_diff (base_rows ! base_index l)
           (candidate_rows ! candidate_index l) = Some (link_similarity l, swapped l)
       \<and> s \<le> link_similarity l
       \<and> (s = link_similarity l \<longrightarrow> candidate_index l \<le> j)"
proof -
  let ?L = "match_records lib base_rows candidate_rows max_minutes_diff min_similarity"
  from match_records_spec[of lib base_rows candidate_rows max_minutes_diff min_similarity] assms(2)
  have sc: "scan_candidates lib max_minutes_diff (base_index l) (base_rows ! base_index l)
           (earlier_claims ?L (base_index l)) 0 candidate_rows None = Some l"
    by blast
  from scan_max[OF sc _ assms(3) _ assms(5)] assms(4)
  have "s \<le> link_similarity l \<and> (j < candidate_index l \<longrightarrow> s < link_similarity l)" by simp
  with link_facts[OF assms(2)] show ?thesis by auto
qed

theorem match_records_tie_break_witness:
  "match_records sample_lib [sample_goal] [sample_espn, sample_espn] 180 0.76 =
     [\<lparr>base_index = 0, candidate_index = 0, link_similarity = 11 / 10, swapped = False\<rparr>]
   \<and> score_candidate sample_lib 180 sample_goal ([sample_espn, sample_espn] ! 1)
        = Some (11 / 10, False)
   \<and> candidate_index
        \<lparr>base_index = 0, candidate_index = 0, link_similarity = 11 / 10, swapped = False\<rparr> \<le> 1"
proof -
  let ?L = "match_records sample_lib [sample_goal] [sample_espn, sample_espn] 180 0.76"
  let ?l = "\<lparr>base_index = 0, candidate_index = 0, link_similarity = 11 / 10, swapped = False\<rparr>"
  have nz: "(180::real) \<noteq> 0" by simp
  have L: "?L = [?l]" by code_simp
  have m: "?l \<in> set ?L" unfolding L by simp
  have j: "(1::nat) < length [sample_espn, sample_espn]" by simp
  have u: "(1::nat) \<notin> earlier_claims ?L (base_index ?l)"
    unfolding L earlier_claims_def by simp
  have sc: "score_candidate sample_lib 180 ([sample_goal] ! base_index ?l)
              ([sample_espn, sample_espn] ! 1) = Some (11 / 10, False)"
    by (simp add: sample_score)
  from match_records_tie_break[OF nz m j u sc]
  have "11 / 10 = link_similarity ?l \<longrightarrow> candidate_index ?l \<le> 1" by blast
  then have "candidate_index ?l \<le> 1" by simp
  with L sc show ?thesis by simp
qed

subsection \<open>The merge engine\<close>

lemma links_distinct_bases:
  "distinct (map base_index (match_records lib bases cands mmd mins))"
  using match_records_spec[of lib bases cands mmd mins] by (simp add: strict_sorted_iff)

lemma links_in_range:
  "\<forall>l\<in>set (match_records lib bases cands mmd mins).
     base_index l < length bases \<and> candidate_index l < length cands"
  using link_facts[of _ lib bases cands mmd mins] by blast

lemma apply_links_total:
  "\<forall>l\<in>set links. base_index l < length merged \<and> candidate_index l < length rows \<Longrightarrow>
   \<exists>out. apply_links body links merged rows = Inr out \<and> length out = length merged"
proof (induction links arbitrary: merged)
  case Nil
  show ?case by simp
next
  case (Cons l links)
  let ?m = "merged[base_index l := body l (merged ! base_index l) (rows ! candidate_index l)]"
  from Cons.prems have "\<forall>k\<in>set links. base_index k < length ?m \<and> candidate_index k < length rows"
    by simp
  from Cons.IH[OF this] Cons.prems show ?case by simp
qed

lemma apply_links_length:
  "apply_links body links merged rows = Inr out \<Longrightarrow> length out = length merged"
proof (induction links arbitrary: merged)
  case Nil
  then show ?case by simp
next
  case (Cons l links)
  then show ?case by (simp split: if_splits)
qed

lemma apply_links_untouched:
  "apply_links body links merged rows = Inr out \<Longrightarrow> i \<notin> base_index ` set links \<Longrightarrow>
     out ! i = merged ! i"
proof (induction links arbitrary: merged)
  case Nil
  then show ?case by simp
next
  case (Cons l links)
  let ?m = "merged[base_index l := body l (merged ! base_index l) (rows ! candidate_index l)]"
  from Cons.prems(1) have r: "apply_links body links ?m rows = Inr out"
    by (simp split: if_splits)
  from Cons.prems(2) have "i \<notin> base_index ` set links" and ne: "i \<noteq> base_index l" by auto
  from Cons.IH[OF r this(1)] ne show ?case by simp
qed

lemma apply_links_once:
  "apply_links body links merged rows = Inr out \<Longrightarrow> distinct (map base_index links) \<Longrightarrow>
     l \<in> set links \<Longrightarrow>
     out ! base_index l = body l (merged ! base_index l) (rows ! candidate_index l)"
proof (induction links arbitrary: merged)
  case Nil
  then show ?case by simp
next
  case (Cons k links)
  let ?m = "merged[base_index k := body k (merged ! base_index k) (rows ! candidate_index k)]"
  from Cons.prems(1) have r: "apply_links body links ?m rows = Inr out"
    and rng: "base_index k < length merged"
    by (simp_all split: if_splits)
  from Cons.prems(2) have d: "distinct (map base_index links)"
    and nk: "base_index k \<notin> base_index ` set links" by simp_all
  show ?case
  proof (cases "l = k")
    case True
    from apply_links_untouched[OF r nk] rng True show ?thesis by simp
  next
    case False
    with Cons.prems(3) have m: "l \<in> set links" by simp
    with nk have "base_index l \<noteq> base_index k" by (metis imageI)
    with Cons.IH[OF r d m] show ?thesis by simp
  qed
qed

lemma apply_links_invariant:
  assumes "apply_links body links merged rows = Inr out"
    and "i < length merged" and "R (merged ! i)"
    and "\<And>l r c. R r \<Longrightarrow> R (body l r c)"
  shows "R (out ! i)"
  using assms(1,2,3)
proof (induction links arbitrary: merged)
  case Nil
  then show ?case by simp
next
  case (Cons l links)
  let ?m = "merged[base_index l := body l (merged ! base_index l) (rows ! candidate_index l)]"
  from Cons.prems(1) have r: "apply_links body links ?m rows = Inr out"
    by (simp split: if_splits)
  from Cons.prems(2) have i: "i < length ?m" by simp
  have "R (?m ! i)" using Cons.prems(2,3) assms(4) by (cases "i = base_index l") simp_all
  from Cons.IH[OF r i this] show ?case .
qed

lemma espn_attach_fields:
  "score_pair (espn_attach lib l r e) = score_pair r"
  "confidence (espn_attach lib l r e) = fresh_confidence lib l"
  "status (espn_attach lib l r e) =
     Some (preferred_status (str_or (status r) ''unknown'') (str_or (status e) ''unknown''))"
  "verification (espn_attach lib l r e) = verification r"
  "discrepancies (espn_attach lib l r e) = discrepancies r"
  by (simp_all add: espn_attach_def score_pair_def fresh_confidence_def)

lemma sofa_attach_fields:
  "score_pair (sofa_attach lib r e) = score_pair r"
  "confidence (sofa_attach lib r e) = confidence r"
  "status (sofa_attach lib r e) =
     Some (preferred_status (str_or (status r) ''unknown'') (str_or (status e) ''unknown''))"
  "verification (sofa_attach lib r e) = verification r"
  "discrepancies (sofa_attach lib r e) = discrepancies r"
  by (simp_all add: sofa_attach_def score_pair_def)

lemma espn_fill_fields:
  "score_pair (espn_fill r e) = score_pair r"
  "confidence (espn_fill r e) = confidence r"
  "status (espn_fill r e) = status r"
  "verification (espn_fill r e) = verification r"
  "discrepancies (espn_fill r e) = discrepancies r"
  by (simp_all add: espn_fill_def score_pair_def Let_def)

lemma sofa_fill_fields:
  "score_pair (sofa_fill r e) = score_pair r"
  "confidence (sofa_fill r e) = confidence r"
  "status (sofa_fill r e) = status r"
  "verification (sofa_fill r e) = verification r"
  "discrepancies (sofa_fill r e) = discrepancies r"
  by (simp_all add: sofa_fill_def score_pair_def)

lemma espn_scores_status: "status (espn_scores r e) = status r"
  by (simp add: espn_scores_def Let_def)

lemma sofa_scores_status: "status (sofa_scores r e) = status r"
  by (simp add: sofa_scores_def Let_def)

lemma espn_scores_known:
  "\<not> none_in (score_pair r) \<Longrightarrow> score_pair (espn_scores r e) = score_pair r"
  by (simp add: espn_scores_def Let_def score_pair_def)

lemma sofa_scores_known:
  "\<not> none_in (score_pair r) \<Longrightarrow> score_pair (sofa_scores r e) = score_pair r"
  by (simp add: sofa_scores_def Let_def score_pair_def)

lemma link_espn_known:
  "\<not> none_in (score_pair r) \<Longrightarrow> score_pair (link_espn lib l r e) = score_pair r"
  by (simp add: link_espn_def espn_fill_fields espn_scores_known espn_attach_fields)

lemma link_sofa_known:
  "\<not> none_in (score_pair r) \<Longrightarrow> score_pair (link_sofa lib l r e) = score_pair r"
  by (simp add: link_sofa_def sofa_fill_fields sofa_scores_known sofa_attach_fields)

lemma link_streamed_scores: "score_pair (link_streamed l r s) = score_pair r"
  by (simp add: link_streamed_def Let_def score_pair_def)

lemma link_espn_status:
  "status (link_espn lib l r e) =
     Some (preferred_status (str_or (status r) ''unknown'') (str_or (status e) ''unknown''))"
  by (simp add: link_espn_def espn_fill_fields espn_scores_status espn_attach_fields)

lemma link_sofa_status:
  "status (link_sofa lib l r e) =
     Some (preferred_status (str_or (status r) ''unknown'') (str_or (status e) ''unknown''))"
  by (simp add: link_sofa_def sofa_fill_fields sofa_scores_status sofa_attach_fields)

lemma link_streamed_status: "status (link_streamed l r s) = status r"
  by (simp add: link_streamed_def Let_def)

lemma stage_links:
  "\<exists>res. apply_links body (match_records lib merged rows mmd mins) merged rows = Inr res
      \<and> length res = length merged
      \<and> (\<forall>l\<in>set (match_records lib merged rows mmd mins).
            res ! base_index l = body l (merged ! base_index l) (rows ! candidate_index l))
      \<and> (\<forall>i. i \<notin> base_index ` set (match_records lib merged rows mmd mins)
            \<longrightarrow> res ! i = merged ! i)"
proof -
  let ?L = "match_records lib merged rows mmd mins"
  from apply_links_total[OF links_in_range, of body lib merged rows mmd mins]
  obtain res where r: "apply_links body ?L merged rows = Inr res" "length res = length merged"
    by blast
  from apply_links_once[OF r(1) links_distinct_bases] apply_links_untouched[OF r(1)] r
  show ?thesis by blast
qed

lemma espn_stage_result:
  "\<exists>res. espn_stage lib merged espn_rows =
       Inr (res @ unlinked_rows ''espn'' 0.68
              (candidate_index ` set (match_records lib merged espn_rows 180 0.76)) espn_rows)
     \<and> apply_links (link_espn lib) (match_records lib merged espn_rows 180 0.76) merged espn_rows
          = Inr res
     \<and> length res = length merged
     \<and> (\<forall>l\<in>set (match_records lib merged espn_rows 180 0.76).
           res ! base_index l =
             link_espn lib l (merged ! base_index l) (espn_rows ! candidate_index l))
     \<and> (\<forall>i. i \<notin> base_index ` set (match_records lib merged espn_rows 180 0.76)
           \<longrightarrow> res ! i = merged ! i)"
proof -
  from stage_links[of "link_espn lib" lib merged espn_rows 180 "0.76"] obtain res where
    r: "apply_links (link_espn lib) (match_records lib merged espn_rows 180 0.76) merged espn_rows
          = Inr res"
       "length res = length merged"
       "\<forall>l\<in>set (match_records lib merged espn_rows 180 0.76).
           res ! base_index l =
             link_espn lib l (merged ! base_index l) (espn_rows ! candidate_index l)"
       "\<forall>i. i \<notin> base_index ` set (match_records lib merged espn_rows 180 0.76)
           \<longrightarrow> res ! i = merged ! i"
    by blast
  have "espn_stage lib merged espn_rows =
       Inr (res @ unlinked_rows ''espn'' 0.68
              (candidate_index ` set (match_records lib merged espn_rows 180 0.76)) espn_rows)"
    unfolding espn_stage_def Let_def r(1) by simp
  with r show ?thesis by blast
qed

lemma sofa_stage_result:
  "\<exists>res. sofa_stage lib merged sofa_rows =
       Inr (res @ unlinked_rows ''sofascore'' 0.74
              (candidate_index ` set (match_records lib merged sofa_rows 180 0.78)) sofa_rows)
     \<and> apply_links (link_sofa lib) (match_records lib merged sofa_rows 180 0.78) merged sofa_rows
          = Inr res
     \<and> length res = length merged
     \<and> (\<forall>l\<in>set (match_records lib merged sofa_rows 180 0.78).
           res ! base_index l =
             link_sofa lib l (merged ! base_index l) (sofa_rows ! candidate_index l))
     \<and> (\<forall>i. i \<notin> base_index ` set (match_records lib merged sofa_rows 180 0.78)
           \<longrightarrow> res ! i = merged ! i)"
proof -
  from stage_links[of "link_sofa lib" lib merged sofa_rows 180 "0.78"] obtain res where
    r: "apply_links (link_sofa lib) (match_records lib merged sofa_rows 180 0.78) merged sofa_rows
          = Inr res"
       "length res = length merged"
       "\<forall>l\<in>set (match_records lib merged sofa_rows 180 0.78).
           res ! base_index l =
             link_sofa lib l (merged ! base_index l) (sofa_rows ! candidate_index l)"
       "\<forall>i. i \<notin> base_index ` set (match_records lib merged sofa_rows 180 0.78)
           \<longrightarrow> res ! i = merged ! i"
    by blast
  have "sofa_stage lib merged sofa_rows =
       Inr (res @ unlinked_rows ''sofascore'' 0.74
              (candidate_index ` set (match_records lib merged sofa_rows 180 0.78)) sofa_rows)"
    unfolding sofa_stage_def Let_def r(1) by simp
  with r show ?thesis by blast
qed

lemma streamed_stage_result:
  "\<exists>res. streamed_stage lib merged streamed_rows = Inr res
     \<and> length res = length merged
     \<and> (\<forall>l\<in>set (match_records lib merged streamed_rows 180 0.80).
           res ! base_index l =
             link_streamed l (merged ! base_index l) (streamed_rows ! candidate_index l))
     \<and> (\<forall>i. i \<notin> base_index ` set (match_records lib merged streamed_rows 180 0.80)
           \<longrightarrow> res ! i = merged ! i)"
  using stage_links[of link_streamed lib merged streamed_rows 180 "0.80"]
  unfolding streamed_stage_def Let_def by blast

lemma sample_goal_scores: "score_pair sample_goal = (Some 2, Some 1)"
  by code_simp

lemma sample_espn_link:
  "match_records sample_lib [sample_goal] [sample_espn] 180 0.76 =
     [\<lparr>base_index = 0, candidate_index = 0, link_similarity = 11 / 10, swapped = False\<rparr>]"
  by code_simp

lemma espn_scores_never_absent:
  "(home_score r \<noteq> None \<longrightarrow> home_score (espn_scores r e) \<noteq> None)
   \<and> (away_score r \<noteq> None \<longrightarrow> away_score (espn_scores r e) \<noteq> None)"
  by (auto simp: espn_scores_def Let_def none_in_def score_pair_def)

lemma sofa_scores_never_absent:
  "(home_score r \<noteq> None \<longrightarrow> home_score (sofa_scores r e) \<noteq> None)
   \<and> (away_score r \<noteq> None \<longrightarrow> away_score (sofa_scores r e) \<noteq> None)"
  by (auto simp: sofa_scores_def Let_def none_in_def score_pair_def)

lemma fill_scores:
  "home_score (espn_fill r e) = home_score r" "away_score (espn_fill r e) = away_score r"
  "home_score (sofa_fill r e) = home_score r" "away_score (sofa_fill r e) = away_score r"
  by (simp_all add: espn_fill_def sofa_fill_def Let_def)

lemma links_never_absent:
  "(home_score r \<noteq> None \<longrightarrow> home_score (link_espn lib l r e) \<noteq> None)
   \<and> (away_score r \<noteq> None \<longrightarrow> away_score (link_espn lib l r e) \<noteq> None)
   \<and> (home_score r \<noteq> None \<longrightarrow> home_score (link_sofa lib l r e) \<noteq> None)
   \<and> (away_score r \<noteq> None \<longrightarrow> away_score (link_sofa lib l r e) \<noteq> None)
   \<and> home_score (link_streamed l r e) = home_score r
   \<and> away_score (link_streamed l r e) = away_score r"
  using espn_scores_never_absent[of "espn_attach lib l r e" e]
    sofa_scores_never_absent[of "sofa_attach lib r e" e]
  by (simp add: link_espn_def link_sofa_def fill_scores espn_attach_def sofa_attach_def
      link_streamed_def Let_def)

text \<open>
  C2. Take a canonical row whose home and away scores are both known before a stage folds in
  another source. Each of the three linking stages returns, and returns the row with its
  score pair unchanged: the only branch that writes scores is the fill branch, and it
  requires a missing score in the canonical row. The same holds for the body of each loop
  on its own, whatever row it is given as the row of the other source. And for any row at
  all, no loop body leaves a score absent that was known before.
\<close>

theorem known_scores_kept:
  assumes i: "i < length merged" and known: "\<not> none_in (score_pair (merged ! i))"
  shows "(\<exists>out. espn_stage lib merged espn_rows = Inr out \<and> i < length out
                \<and> score_pair (out ! i) = score_pair (merged ! i))
       \<and> (\<exists>out. sofa_stage lib merged sofa_rows = Inr out \<and> i < length out
                \<and> score_pair (out ! i) = score_pair (merged ! i))
       \<and> (\<exists>out. streamed_stage lib merged streamed_rows = Inr out \<and> i < length out
                \<and> score_pair (out ! i) = score_pair (merged ! i))
       \<and> score_pair (link_espn lib l (merged ! i) other) = score_pair (merged ! i)
       \<and> score_pair (link_sofa lib l (merged ! i) other) = score_pair (merged ! i)
       \<and> score_pair (link_streamed l (merged ! i) other) = score_pair (merged ! i)
       \<and> (home_score r \<noteq> None \<longrightarrow> home_score (link_espn lib l r other) \<noteq> None)
       \<and> (away_score r \<noteq> None \<longrightarrow> away_score (link_espn lib l r other) \<noteq> None)
       \<and> (home_score r \<noteq> None \<longrightarrow> home_score (link_sofa lib l r other) \<noteq> None)
       \<and> (away_score r \<noteq> None \<longrightarrow> away_score (link_sofa lib l r other) \<noteq> None)
       \<and> home_score (link_streamed l r other) = home_score r
       \<and> away_score (link_streamed l r other) = away_score r"
proof -
  let ?R = "\<lambda>r. score_pair r = score_pair (merged ! i)"
  have e: "\<And>l r c. ?R r \<Longrightarrow> ?R (link_espn lib l r c)"
    using known by (simp add: link_espn_known)
  have s: "\<And>l r c. ?R r \<Longrightarrow> ?R (link_sofa lib l r c)"
    using known by (simp add: link_sofa_known)
  have t: "\<And>l r c. ?R r \<Longrightarrow> ?R (link_streamed l r c)"
    by (simp add: link_streamed_scores)
  from espn_stage_result[of lib merged espn_rows] obtain res where
    r: "espn_stage lib merged espn_rows =
       Inr (res @ unlinked_rows ''espn'' 0.68
              (candidate_index ` set (match_records lib merged espn_rows 180 0.76)) espn_rows)"
       "apply_links (link_espn lib) (match_records lib merged espn_rows 180 0.76) merged espn_rows
          = Inr res" "length res = length merged"
    by blast
  from apply_links_invariant[where R = ?R, OF r(2) i _ e] have "?R (res ! i)" by simp
  with r(1,3) i have 1: "\<exists>out. espn_stage lib merged espn_rows = Inr out \<and> i < length out
                \<and> score_pair (out ! i) = score_pair (merged ! i)"
    by (simp add: nth_append)
  from sofa_stage_result[of lib merged sofa_rows] obtain res2 where
    r2: "sofa_stage lib merged sofa_rows =
       Inr (res2 @ unlinked_rows ''sofascore'' 0.74
              (candidate_index ` set (match_records lib merged sofa_rows 180 0.78)) sofa_rows)"
       "apply_links (link_sofa lib) (match_records lib merged sofa_rows 180 0.78) merged sofa_rows
          = Inr res2" "length res2 = length merged"
    by blast
  from apply_links_invariant[where R = ?R, OF r2(2) i _ s] have "?R (res2 ! i)" by simp
  with r2(1,3) i have 2: "\<exists>out. sofa_stage lib merged sofa_rows = Inr out \<and> i < length out
                \<and> score_pair (out ! i) = score_pair (merged ! i)"
    by (simp add: nth_append)
  from streamed_stage_result[of lib merged streamed_rows] obtain res3 where
    r3: "streamed_stage lib merged streamed_rows = Inr res3" "length res3 = length merged"
    by blast
  from r3(1) have a3: "apply_links link_streamed (match_records lib merged streamed_rows 180 0.80)
      merged streamed_rows = Inr res3"
    by (simp add: streamed_stage_def Let_def)
  from apply_links_invariant[where R = ?R, OF a3 i _ t] have "?R (res3 ! i)" by simp
  with r3 i have 3: "\<exists>out. streamed_stage lib merged streamed_rows = Inr out \<and> i < length out
                \<and> score_pair (out ! i) = score_pair (merged ! i)"
    by simp
  have 4: "score_pair (link_espn lib l (merged ! i) other) = score_pair (merged ! i)
       \<and> score_pair (link_sofa lib l (merged ! i) other) = score_pair (merged ! i)
       \<and> score_pair (link_streamed l (merged ! i) other) = score_pair (merged ! i)"
    using known by (simp add: link_espn_known link_sofa_known link_streamed_scores)
  from 1 2 3 4 links_never_absent[of r lib l other] show ?thesis by blast
qed

theorem known_scores_kept_witness:
  "(\<exists>out. espn_stage sample_lib [sample_goal] [sample_espn] = Inr out \<and> 0 < length out
         \<and> score_pair (out ! 0) = (Some 2, Some 1))
   \<and> (\<exists>out. sofa_stage sample_lib [sample_goal] [sample_espn] = Inr out \<and> 0 < length out
         \<and> score_pair (out ! 0) = (Some 2, Some 1))
   \<and> score_pair sample_espn = (Some 1, Some 1)"
proof -
  have i: "(0::nat) < length [sample_goal]" by simp
  have k: "\<not> none_in (score_pair ([sample_goal] ! 0))"
    by (simp add: sample_goal_scores none_in_def)
  have e: "score_pair sample_espn = (Some 1, Some 1)" by code_simp
  from known_scores_kept[OF i k, of sample_lib "[sample_espn]" "[sample_espn]" "[]"] e
  show ?thesis by (simp add: sample_goal_scores)
qed

lemma preferred_priority:
  "status_priority (preferred_status a b) = max (status_priority a) (status_priority b)"
  by (simp add: preferred_status_def Let_def max_def)

lemma foldl_preferred_priority:
  "status_priority (foldl preferred_status a bs) = Max (status_priority ` set (a # bs))"
proof (induction bs arbitrary: a)
  case Nil
  show ?case by simp
next
  case (Cons b bs)
  have "Max (status_priority ` set (a # b # bs)) =
          max (max (status_priority a) (status_priority b)) (Max (insert (status_priority b) (status_priority ` set bs)))"
    by (simp add: max.assoc)
  moreover have "Max (status_priority ` set (preferred_status a b # bs)) =
     Max (insert (max (status_priority a) (status_priority b)) (status_priority ` set bs))"
    by (simp add: preferred_priority)
  ultimately show ?case using Cons.IH[of "preferred_status a b"]
    by (cases "bs = []") (simp_all add: max.assoc max.left_commute preferred_priority)
qed

lemma priority_table:
  "map status_priority
     [''live'', ''finished'', ''postponed'', ''cancelled'', ''scheduled'', ''unknown'']
   = [5, 4, 3, 2, 1, 0]"
  by (simp add: status_priority_def STATUS_PRIORITY_def)

text \<open>
  C3, as stated: the status of a canonical row would be the highest-priority status among
  those of its contributing sources. The fourth stage adds the streamed source to the
  sources of a row and never reads the status of the streamed row: an anchor row that is
  scheduled, linked to a streamed row that is live, stays scheduled with sources goal and
  streamed.
\<close>

theorem streamed_status_ignored_counterexample:
  "merge_provider_matches sample_lib [sample_scheduled] [] [live_streamed] None =
   Inr [(seed_row ''goal'' 0.72 sample_scheduled)
          \<lparr>streamed_watch_url := Some ''https://streamed.pk/watch/alpha-vs-beta-123'',
           sources := [''goal'', ''streamed''],
           external_ids := [(''goal'', Some ''goal-1''), (''streamed'', Some ''alpha-vs-beta-123'')]\<rparr>]
   \<and> status (seed_row ''goal'' 0.72 sample_scheduled) = Some ''scheduled''
   \<and> status live_streamed = Some ''live''
   \<and> status_priority ''scheduled'' < status_priority ''live''"
  by code_simp

lemma unlinked_rows_unclaimed:
  "unlinked_rows src conf (candidate_index ` set links) rows =
     map (seed_row src conf) (unclaimed links rows)"
  by (simp add: unlinked_rows_def unclaimed_def case_prod_beta comp_def)

lemma linked_to_none: "i \<notin> base_index ` set links \<Longrightarrow> linked_to links rows i = []"
  by (auto simp: linked_to_def filter_empty_conv)

lemma filter_base_index:
  "distinct (map base_index links) \<Longrightarrow> l \<in> set links \<Longrightarrow>
     filter (\<lambda>k. base_index k = base_index l) links = [l]"
proof (induction links)
  case Nil
  then show ?case by simp
next
  case (Cons k links)
  show ?case
  proof (cases "l = k")
    case True
    from Cons.prems(1) have "base_index k \<notin> base_index ` set links" by simp
    then have "\<forall>x\<in>set links. base_index x \<noteq> base_index k" by (metis imageI)
    then have "filter (\<lambda>x. base_index x = base_index k) links = []"
      by (simp add: filter_empty_conv)
    with True show ?thesis by simp
  next
    case False
    with Cons.prems have m: "l \<in> set links" and d: "distinct (map base_index links)" by simp_all
    from Cons.prems(1) have "base_index k \<notin> base_index ` set links" by simp
    with m have "base_index k \<noteq> base_index l" by (metis imageI)
    with Cons.IH[OF d m] show ?thesis by simp
  qed
qed

lemma linked_to_one:
  "distinct (map base_index links) \<Longrightarrow> l \<in> set links \<Longrightarrow>
     linked_to links rows (base_index l) = [rows ! candidate_index l]"
  by (simp add: linked_to_def filter_base_index)

lemma linked_to_length:
  "distinct (map base_index links) \<Longrightarrow> length (linked_to links rows i) \<le> 1"
proof (cases "i \<in> base_index ` set links")
  case True
  assume d: "distinct (map base_index links)"
  from True obtain l where "l \<in> set links" "i = base_index l" by blast
  with linked_to_one[OF d this(1), of rows] show ?thesis by simp
next
  case False
  then show ?thesis by (simp add: linked_to_none)
qed

lemma read_status_nonempty: "read_status r \<noteq> []"
  by (simp add: read_status_def str_or_def split: option.splits)

lemma foldl_preferred_mem: "foldl preferred_status a bs \<in> set (a # bs)"
proof (induction bs arbitrary: a)
  case Nil
  show ?case by simp
next
  case (Cons b bs)
  from Cons.IH[of "preferred_status a b"] show ?case
    by (auto simp: preferred_status_def Let_def split: if_splits)
qed

lemma fold_status_read:
  "others \<noteq> [] \<Longrightarrow>
     str_or (fold_status r others) ''unknown'' =
       foldl preferred_status (read_status r) (map read_status others)"
proof -
  assume o: "others \<noteq> []"
  have "foldl preferred_status (read_status r) (map read_status others)
          \<in> set (read_status r # map read_status others)"
    by (rule foldl_preferred_mem)
  then have "foldl preferred_status (read_status r) (map read_status others) \<noteq> []"
    using read_status_nonempty by auto
  with o show ?thesis by (simp add: fold_status_def str_or_def)
qed

lemma fold_status_cong: "status r = status r' \<Longrightarrow> fold_status r xs = fold_status r' xs"
  by (simp add: fold_status_def read_status_def)

lemma fold_status_compose:
  assumes "status r' = fold_status r xs"
  shows "fold_status r' ys = fold_status r (xs @ ys)"
proof (cases "ys = []")
  case True
  with assms show ?thesis by (simp add: fold_status_def)
next
  case ys: False
  show ?thesis
  proof (cases "xs = []")
    case True
    with assms have "status r' = status r" by (simp add: fold_status_def)
    from fold_status_cong[OF this] True show ?thesis by simp
  next
    case False
    have "read_status r' = str_or (fold_status r xs) ''unknown''"
      by (simp add: read_status_def assms)
    also have "\<dots> = foldl preferred_status (read_status r) (map read_status xs)"
      by (rule fold_status_read[OF False])
    finally show ?thesis using ys False by (simp add: fold_status_def)
  qed
qed

lemma stage_status:
  assumes body: "\<And>l r c. status (body l r c) =
       Some (preferred_status (str_or (status r) ''unknown'') (str_or (status c) ''unknown''))"
    and res: "apply_links body (match_records lib merged rows mmd mins) merged rows = Inr res"
  shows "status (res ! i) = fold_status (merged ! i) (linked_to (match_records lib merged rows mmd mins) rows i)"
proof (cases "i \<in> base_index ` set (match_records lib merged rows mmd mins)")
  case True
  then obtain l where l: "l \<in> set (match_records lib merged rows mmd mins)" "i = base_index l"
    by blast
  from apply_links_once[OF res links_distinct_bases l(1)]
  have "res ! i = body l (merged ! i) (rows ! candidate_index l)" by (simp add: l(2))
  moreover from linked_to_one[OF links_distinct_bases l(1), of rows]
  have "linked_to (match_records lib merged rows mmd mins) rows i = [rows ! candidate_index l]"
    by (simp add: l(2))
  ultimately show ?thesis by (simp add: body fold_status_def read_status_def)
next
  case False
  from apply_links_untouched[OF res False] linked_to_none[OF False, of rows]
  show ?thesis by (simp add: fold_status_def)
qed

lemma streamed_stage_status:
  assumes "streamed_stage lib merged streamed_rows = Inr res"
  shows "length res = length merged \<and> (\<forall>i. status (res ! i) = status (merged ! i))"
proof -
  let ?L = "match_records lib merged streamed_rows 180 0.80"
  from assms have a: "apply_links link_streamed ?L merged streamed_rows = Inr res"
    by (simp add: streamed_stage_def Let_def)
  have "status (res ! i) = status (merged ! i)" for i
  proof (cases "i \<in> base_index ` set ?L")
    case True
    then obtain l where l: "l \<in> set ?L" "i = base_index l" by blast
    from apply_links_once[OF a links_distinct_bases l(1)] show ?thesis
      by (simp add: l(2) link_streamed_status)
  next
    case False
    from apply_links_untouched[OF a False] show ?thesis by simp
  qed
  with apply_links_length[OF a] show ?thesis by simp
qed

lemma preferred_first:
  "foldl preferred_status a bs =
     hd (filter (\<lambda>s. status_priority s = Max (status_priority ` set (a # bs))) (a # bs))"
proof (induction bs arbitrary: a)
  case Nil
  show ?case by simp
next
  case (Cons b bs)
  define M where "M = Max (status_priority ` set (a # b # bs))"
  have M': "Max (status_priority ` set (preferred_status a b # bs)) = M"
    using foldl_preferred_priority[of "preferred_status a b" bs]
      foldl_preferred_priority[of a "b # bs"] unfolding M_def by simp
  have ih: "foldl preferred_status (preferred_status a b) bs =
      hd (filter (\<lambda>s. status_priority s = M) (preferred_status a b # bs))"
    using Cons.IH[of "preferred_status a b"] unfolding M' .
  have le: "status_priority a \<le> M" "status_priority b \<le> M"
    unfolding M_def by (rule Max_ge, simp, simp)+
  have "foldl preferred_status (preferred_status a b) bs =
      hd (filter (\<lambda>s. status_priority s = M) (a # b # bs))"
  proof (cases "status_priority b > status_priority a")
    case True
    then have p: "preferred_status a b = b" by (simp add: preferred_status_def Let_def)
    from True le(2) have "status_priority a \<noteq> M" by linarith
    then show ?thesis unfolding p ih[unfolded p] by simp
  next
    case False
    then have p: "preferred_status a b = a" by (simp add: preferred_status_def Let_def)
    show ?thesis
    proof (cases "status_priority a = M")
      case True
      then show ?thesis unfolding p ih[unfolded p] by simp
    next
      case na: False
      with False le(1) have "status_priority b \<noteq> M" by linarith
      with na show ?thesis unfolding p ih[unfolded p] by simp
    qed
  qed
  then show ?case unfolding M_def by simp
qed

lemma fold_status_priority:
  "status_priority (str_or (fold_status r others) ''unknown'') =
     Max (status_priority ` set (map read_status (r # others)))"
proof (cases "others = []")
  case True
  then show ?thesis by (simp add: fold_status_def read_status_def)
next
  case False
  from fold_status_read[OF False, of r]
    foldl_preferred_priority[of "read_status r" "map read_status others"]
  show ?thesis by simp
qed

lemma fold_status_first:
  "others \<noteq> [] \<Longrightarrow>
     fold_status r others =
       Some (hd (filter (\<lambda>s. status_priority s =
                            Max (status_priority ` set (map read_status (r # others))))
                   (map read_status (r # others))))"
  using preferred_first[of "read_status r" "map read_status others"]
  by (simp add: fold_status_def)

lemma linked_to_rows:
  "set (linked_to (match_records lib bases rows mmd mins) rows i) \<subseteq> set rows"
proof
  fix x assume "x \<in> set (linked_to (match_records lib bases rows mmd mins) rows i)"
  then obtain l where l: "l \<in> set (match_records lib bases rows mmd mins)"
    and x: "x = rows ! candidate_index l"
    by (auto simp: linked_to_def)
  from link_facts[OF l] have "candidate_index l < length rows" by simp
  with x show "x \<in> set rows" by simp
qed

lemma priority_default:
  "s \<notin> set [''live'', ''finished'', ''postponed'', ''cancelled'', ''scheduled'', ''unknown'']
     \<Longrightarrow> status_priority s = 0"
  by (simp add: status_priority_def STATUS_PRIORITY_def)

lemma merge_no_sofa:
  "merge_provider_matches lib goal_rows espn_rows streamed_rows None =
     merge_provider_matches lib goal_rows espn_rows streamed_rows (Some [])"
  by (simp add: merge_provider_matches_def)

lemma merge_statuses:
  "\<exists>m1 m2 m3.
     espn_stage lib (map (seed_row ''goal'' 0.72) goal_rows) espn_rows = Inr m1
   \<and> sofa_stage lib m1 sofa_rows = Inr m2
   \<and> streamed_stage lib m2 streamed_rows = Inr m3
   \<and> merge_provider_matches lib goal_rows espn_rows streamed_rows (Some sofa_rows) =
       Inr (sort_key (row_sort_key lib) m3)
   \<and> length m1 = length goal_rows
       + length (unclaimed (match_records lib (map (seed_row ''goal'' 0.72) goal_rows)
                              espn_rows 180 0.76) espn_rows)
   \<and> length m3 = length m1
       + length (unclaimed (match_records lib m1 sofa_rows 180 0.78) sofa_rows)
   \<and> (\<forall>i<length goal_rows.
         status (m3 ! i) =
           fold_status (goal_rows ! i)
             (linked_to (match_records lib (map (seed_row ''goal'' 0.72) goal_rows)
                           espn_rows 180 0.76) espn_rows i
              @ linked_to (match_records lib m1 sofa_rows 180 0.78) sofa_rows i))
   \<and> (\<forall>j<length (unclaimed (match_records lib (map (seed_row ''goal'' 0.72) goal_rows)
                               espn_rows 180 0.76) espn_rows).
         status (m3 ! (length goal_rows + j)) =
           fold_status
             (unclaimed (match_records lib (map (seed_row ''goal'' 0.72) goal_rows)
                           espn_rows 180 0.76) espn_rows ! j)
             (linked_to (match_records lib m1 sofa_rows 180 0.78) sofa_rows
                (length goal_rows + j)))
   \<and> (\<forall>j<length (unclaimed (match_records lib m1 sofa_rows 180 0.78) sofa_rows).
         status (m3 ! (length m1 + j)) =
           status (unclaimed (match_records lib m1 sofa_rows 180 0.78) sofa_rows ! j))"
proof -
  let ?m0 = "map (seed_row ''goal'' 0.72) goal_rows"
  let ?L1 = "match_records lib ?m0 espn_rows 180 0.76"
  let ?U1 = "unclaimed ?L1 espn_rows"
  from espn_stage_result[of lib ?m0 espn_rows] obtain res1 where
    r1: "espn_stage lib ?m0 espn_rows =
           Inr (res1 @ unlinked_rows ''espn'' 0.68 (candidate_index ` set ?L1) espn_rows)"
        "apply_links (link_espn lib) ?L1 ?m0 espn_rows = Inr res1"
        "length res1 = length ?m0"
    by blast
  define m1 where "m1 = res1 @ map (seed_row ''espn'' 0.68) ?U1"
  have s1: "espn_stage lib ?m0 espn_rows = Inr m1"
    unfolding m1_def r1(1) unlinked_rows_unclaimed ..
  have len1: "length res1 = length goal_rows" using r1(3) by simp
  have lm1: "length m1 = length goal_rows + length ?U1" by (simp add: m1_def len1)
  have st1: "status (m1 ! i) = fold_status (goal_rows ! i) (linked_to ?L1 espn_rows i)"
    if "i < length goal_rows" for i
  proof -
    have "status (res1 ! i) = fold_status (?m0 ! i) (linked_to ?L1 espn_rows i)"
      by (rule stage_status[OF link_espn_status r1(2)])
    also have "\<dots> = fold_status (goal_rows ! i) (linked_to ?L1 espn_rows i)"
      using that by (intro fold_status_cong) (simp add: seed_row_def)
    finally show ?thesis using that len1 by (simp add: m1_def nth_append)
  qed
  have st1': "status (m1 ! (length goal_rows + j)) = status (?U1 ! j)"
    if "j < length ?U1" for j
    using that len1 by (simp add: m1_def nth_append seed_row_def)
  let ?L2 = "match_records lib m1 sofa_rows 180 0.78"
  let ?U2 = "unclaimed ?L2 sofa_rows"
  from sofa_stage_result[of lib m1 sofa_rows] obtain res2 where
    r2: "sofa_stage lib m1 sofa_rows =
           Inr (res2 @ unlinked_rows ''sofascore'' 0.74 (candidate_index ` set ?L2) sofa_rows)"
        "apply_links (link_sofa lib) ?L2 m1 sofa_rows = Inr res2"
        "length res2 = length m1"
    by blast
  define m2 where "m2 = res2 @ map (seed_row ''sofascore'' 0.74) ?U2"
  have s2: "sofa_stage lib m1 sofa_rows = Inr m2"
    unfolding m2_def r2(1) unlinked_rows_unclaimed ..
  have lm2: "length m2 = length m1 + length ?U2" by (simp add: m2_def r2(3))
  have st2: "status (m2 ! i) = fold_status (m1 ! i) (linked_to ?L2 sofa_rows i)"
    if "i < length m1" for i
  proof -
    have "status (res2 ! i) = fold_status (m1 ! i) (linked_to ?L2 sofa_rows i)"
      by (rule stage_status[OF link_sofa_status r2(2)])
    then show ?thesis using that r2(3) by (simp add: m2_def nth_append)
  qed
  have st2': "status (m2 ! (length m1 + j)) = status (?U2 ! j)" if "j < length ?U2" for j
    using that r2(3) by (simp add: m2_def nth_append seed_row_def)
  from streamed_stage_result[of lib m2 streamed_rows] obtain m3 where
    s3: "streamed_stage lib m2 streamed_rows = Inr m3" by blast
  from streamed_stage_status[OF s3] have lm3: "length m3 = length m2"
    and st3: "\<And>i. status (m3 ! i) = status (m2 ! i)" by simp_all
  have mg: "merge_provider_matches lib goal_rows espn_rows streamed_rows (Some sofa_rows) =
       Inr (sort_key (row_sort_key lib) m3)"
    unfolding merge_provider_matches_def Let_def s1 by (simp add: s2 s3)
  have a: "\<forall>i<length goal_rows.
         status (m3 ! i) =
           fold_status (goal_rows ! i) (linked_to ?L1 espn_rows i @ linked_to ?L2 sofa_rows i)"
  proof (intro allI impI)
    fix i assume i: "i < length goal_rows"
    then have "i < length m1" using lm1 by simp
    from st2[OF this] fold_status_compose[OF st1[OF i]]
    show "status (m3 ! i) =
           fold_status (goal_rows ! i) (linked_to ?L1 espn_rows i @ linked_to ?L2 sofa_rows i)"
      by (simp add: st3)
  qed
  have b: "\<forall>j<length ?U1.
         status (m3 ! (length goal_rows + j)) =
           fold_status (?U1 ! j) (linked_to ?L2 sofa_rows (length goal_rows + j))"
  proof (intro allI impI)
    fix j assume j: "j < length ?U1"
    then have "length goal_rows + j < length m1" using lm1 by simp
    from st2[OF this] fold_status_cong[OF st1'[OF j]]
    show "status (m3 ! (length goal_rows + j)) =
           fold_status (?U1 ! j) (linked_to ?L2 sofa_rows (length goal_rows + j))"
      by (simp add: st3)
  qed
  have c: "\<forall>j<length ?U2. status (m3 ! (length m1 + j)) = status (?U2 ! j)"
    using st2' by (simp add: st3)
  have d: "length m3 = length m1 + length ?U2" using lm3 lm2 by simp
  from s1 s2 s3 mg lm1 d a b c show ?thesis by blast
qed

lemma sample_second_stage:
  "espn_stage sample_lib (map (seed_row ''goal'' 0.72) [sample_scheduled])
     [sample_espn_finished, sample_espn_replay] =
   Inr [link_espn sample_lib
          \<lparr>base_index = 0, candidate_index = 0, link_similarity = 11 / 10, swapped = False\<rparr>
          (seed_row ''goal'' 0.72 sample_scheduled) sample_espn_finished,
        seed_row ''espn'' 0.68 sample_espn_replay]"
  by code_simp

lemma sample_third_stage:
  "unclaimed (match_records sample_lib (map (seed_row ''goal'' 0.72) [sample_scheduled])
                [sample_espn_finished, sample_espn_replay] 180 0.76)
     [sample_espn_finished, sample_espn_replay] = [sample_espn_replay]"
  "unclaimed
     (match_records sample_lib
        [link_espn sample_lib
           \<lparr>base_index = 0, candidate_index = 0, link_similarity = 11 / 10, swapped = False\<rparr>
           (seed_row ''goal'' 0.72 sample_scheduled) sample_espn_finished,
         seed_row ''espn'' 0.68 sample_espn_replay]
        [sample_sofa_live, sample_sofa_late] 180 0.78)
     [sample_sofa_live, sample_sofa_late] = [sample_sofa_late]"
  "fold_status ([sample_scheduled] ! 0)
     (linked_to (match_records sample_lib (map (seed_row ''goal'' 0.72) [sample_scheduled])
                   [sample_espn_finished, sample_espn_replay] 180 0.76)
        [sample_espn_finished, sample_espn_replay] 0
      @ linked_to
          (match_records sample_lib
             [link_espn sample_lib
                \<lparr>base_index = 0, candidate_index = 0, link_similarity = 11 / 10,
                  swapped = False\<rparr>
                (seed_row ''goal'' 0.72 sample_scheduled) sample_espn_finished,
              seed_row ''espn'' 0.68 sample_espn_replay]
             [sample_sofa_live, sample_sofa_late] 180 0.78)
          [sample_sofa_live, sample_sofa_late] 0) = Some ''live''"
  "fold_status ([sample_espn_replay] ! 0)
     (linked_to
          (match_records sample_lib
             [link_espn sample_lib
                \<lparr>base_index = 0, candidate_index = 0, link_similarity = 11 / 10,
                  swapped = False\<rparr>
                (seed_row ''goal'' 0.72 sample_scheduled) sample_espn_finished,
              seed_row ''espn'' 0.68 sample_espn_replay]
             [sample_sofa_live, sample_sofa_late] 180 0.78)
          [sample_sofa_live, sample_sofa_late] (length [sample_scheduled] + 0)) =
     Some ''postponed''"
  "status ([sample_sofa_late] ! 0) = Some ''cancelled''"
  by code_simp+

lemma sample_first_highest:
  "hd (filter (\<lambda>s. status_priority s =
                  Max (status_priority `
                         set (map read_status
                                (sample_scheduled # [sample_espn_finished, sample_sofa_live]))))
         (map read_status (sample_scheduled # [sample_espn_finished, sample_sofa_live])))
     = ''live''"
  by code_simp

text \<open>
  C3, amended: \<^verbatim>\<open>merge_provider_matches\<close> returns, for any rows of the four sources, the
  rows of the fourth stage, sorted: the rows it returns are those of that list. The fourth
  stage leaves every status as the third stage left it, whatever the streamed rows are.
  The list has one row for each anchor row, then one for each row of the second source
  that no link claimed, then one for each row of the third source that no link claimed.
  The status of the row of an anchor row is the status of the anchor row with the statuses
  of the row of the second source and of the row of the third source linked to it (at most
  one of each) folded in, in that order; the status of a row appended by the second stage is
  that of its row of the second source with the status of the row of the third source
  linked to it folded in; a row appended by the third stage has the status of its row. A
  row to which nothing is linked keeps its status as it is. Otherwise the fold gives the
  first of the statuses read (an absent or empty one read as unknown) that has the highest
  priority among them, under live=5, finished=4, postponed=3, cancelled=2, scheduled=1,
  unknown=0 and 0 for any other status: of two statuses of equal priority the earlier is
  kept.
\<close>

theorem status_highest_priority:
  "\<exists>m1 m2 m3.
     espn_stage lib (map (seed_row ''goal'' 0.72) goal_rows) espn_rows = Inr m1
   \<and> sofa_stage lib m1 sofa_rows = Inr m2
   \<and> streamed_stage lib m2 streamed_rows = Inr m3
   \<and> merge_provider_matches lib goal_rows espn_rows streamed_rows (Some sofa_rows) =
       Inr (sort_key (row_sort_key lib) m3)
   \<and> merge_provider_matches lib goal_rows espn_rows streamed_rows None =
       merge_provider_matches lib goal_rows espn_rows streamed_rows (Some [])
   \<and> set (sort_key (row_sort_key lib) m3) = set m3
   \<and> length (sort_key (row_sort_key lib) m3) = length m3
   \<and> length m1 = length goal_rows
       + length (unclaimed (match_records lib (map (seed_row ''goal'' 0.72) goal_rows)
                              espn_rows 180 0.76) espn_rows)
   \<and> length m3 = length m1
       + length (unclaimed (match_records lib m1 sofa_rows 180 0.78) sofa_rows)
   \<and> (\<forall>i<length goal_rows.
         status (m3 ! i) =
           fold_status (goal_rows ! i)
             (linked_to (match_records lib (map (seed_row ''goal'' 0.72) goal_rows)
                           espn_rows 180 0.76) espn_rows i
              @ linked_to (match_records lib m1 sofa_rows 180 0.78) sofa_rows i))
   \<and> (\<forall>j<length (unclaimed (match_records lib (map (seed_row ''goal'' 0.72) goal_rows)
                               espn_rows 180 0.76) espn_rows).
         status (m3 ! (length goal_rows + j)) =
           fold_status
             (unclaimed (match_records lib (map (seed_row ''goal'' 0.72) goal_rows)
                           espn_rows 180 0.76) espn_rows ! j)
             (linked_to (match_records lib m1 sofa_rows 180 0.78) sofa_rows
                (length goal_rows + j)))
   \<and> (\<forall>j<length (unclaimed (match_records lib m1 sofa_rows 180 0.78) sofa_rows).
         status (m3 ! (length m1 + j)) =
           status (unclaimed (match_records lib m1 sofa_rows 180 0.78) sofa_rows ! j))
   \<and> (\<forall>i. length (linked_to (match_records lib (map (seed_row ''goal'' 0.72) goal_rows)
                               espn_rows 180 0.76) espn_rows i) \<le> 1
          \<and> set (linked_to (match_records lib (map (seed_row ''goal'' 0.72) goal_rows)
                               espn_rows 180 0.76) espn_rows i) \<subseteq> set espn_rows
          \<and> length (linked_to (match_records lib m1 sofa_rows 180 0.78) sofa_rows i) \<le> 1
          \<and> set (linked_to (match_records lib m1 sofa_rows 180 0.78) sofa_rows i)
               \<subseteq> set sofa_rows)
   \<and> fold_status r [] = status r
   \<and> status_priority (str_or (fold_status r others) ''unknown'') =
       Max (status_priority ` set (map read_status (r # others)))
   \<and> (others \<noteq> [] \<longrightarrow>
        fold_status r others =
          Some (hd (filter (\<lambda>s. status_priority s =
                               Max (status_priority ` set (map read_status (r # others))))
                      (map read_status (r # others)))))
   \<and> map status_priority
       [''live'', ''finished'', ''postponed'', ''cancelled'', ''scheduled'', ''unknown'']
       = [5, 4, 3, 2, 1, 0]
   \<and> (\<forall>s. s \<notin> set [''live'', ''finished'', ''postponed'', ''cancelled'', ''scheduled'',
                      ''unknown''] \<longrightarrow> status_priority s = 0)"
proof -
  let ?L1 = "match_records lib (map (seed_row ''goal'' 0.72) goal_rows) espn_rows 180 0.76"
  from merge_statuses[of lib goal_rows espn_rows sofa_rows streamed_rows]
  obtain m1 m2 m3 where
    f1: "espn_stage lib (map (seed_row ''goal'' 0.72) goal_rows) espn_rows = Inr m1"
    and f2: "sofa_stage lib m1 sofa_rows = Inr m2"
    and f3: "streamed_stage lib m2 streamed_rows = Inr m3"
    and f4: "merge_provider_matches lib goal_rows espn_rows streamed_rows (Some sofa_rows) =
       Inr (sort_key (row_sort_key lib) m3)"
    and f5: "length m1 = length goal_rows + length (unclaimed ?L1 espn_rows)"
    and f6: "length m3 = length m1
       + length (unclaimed (match_records lib m1 sofa_rows 180 0.78) sofa_rows)"
    and f7: "\<forall>i<length goal_rows.
         status (m3 ! i) =
           fold_status (goal_rows ! i)
             (linked_to ?L1 espn_rows i
              @ linked_to (match_records lib m1 sofa_rows 180 0.78) sofa_rows i)"
    and f8: "\<forall>j<length (unclaimed ?L1 espn_rows).
         status (m3 ! (length goal_rows + j)) =
           fold_status (unclaimed ?L1 espn_rows ! j)
             (linked_to (match_records lib m1 sofa_rows 180 0.78) sofa_rows
                (length goal_rows + j))"
    and f9: "\<forall>j<length (unclaimed (match_records lib m1 sofa_rows 180 0.78) sofa_rows).
         status (m3 ! (length m1 + j)) =
           status (unclaimed (match_records lib m1 sofa_rows 180 0.78) sofa_rows ! j)"
    by blast
  let ?L2 = "match_records lib m1 sofa_rows 180 0.78"
  have g0: "merge_provider_matches lib goal_rows espn_rows streamed_rows None =
       merge_provider_matches lib goal_rows espn_rows streamed_rows (Some [])"
    by (rule merge_no_sofa)
  have g1: "set (sort_key (row_sort_key lib) m3) = set m3" by simp
  have g2: "length (sort_key (row_sort_key lib) m3) = length m3" by simp
  have g3: "\<forall>i. length (linked_to ?L1 espn_rows i) \<le> 1
          \<and> set (linked_to ?L1 espn_rows i) \<subseteq> set espn_rows
          \<and> length (linked_to ?L2 sofa_rows i) \<le> 1
          \<and> set (linked_to ?L2 sofa_rows i) \<subseteq> set sofa_rows"
    using linked_to_length[OF links_distinct_bases] linked_to_rows by blast
  have g4: "fold_status r [] = status r" by (simp add: fold_status_def)
  have g5: "status_priority (str_or (fold_status r others) ''unknown'') =
       Max (status_priority ` set (map read_status (r # others)))"
    by (rule fold_status_priority)
  have g6: "others \<noteq> [] \<longrightarrow>
        fold_status r others =
          Some (hd (filter (\<lambda>s. status_priority s =
                               Max (status_priority ` set (map read_status (r # others))))
                      (map read_status (r # others))))"
    using fold_status_first[of others r] by blast
  have g7: "map status_priority
       [''live'', ''finished'', ''postponed'', ''cancelled'', ''scheduled'', ''unknown'']
       = [5, 4, 3, 2, 1, 0]"
    by (rule priority_table)
  have g8: "\<forall>s. s \<notin> set [''live'', ''finished'', ''postponed'', ''cancelled'', ''scheduled'',
                      ''unknown''] \<longrightarrow> status_priority s = 0"
    using priority_default by blast
  show ?thesis
    apply (rule exI[of _ m1], rule exI[of _ m2], rule exI[of _ m3])
    apply (intro conjI)
    apply (rule f1 f2 f3 f4 g0 g1 g2 f5 f6 f7 f8 f9 g3 g4 g5 g6 g7 g8)+
    done
qed

theorem status_highest_priority_witness:
  "(\<exists>m3. merge_provider_matches sample_lib [sample_scheduled]
            [sample_espn_finished, sample_espn_replay] [live_streamed]
            (Some [sample_sofa_live, sample_sofa_late]) =
            Inr (sort_key (row_sort_key sample_lib) m3)
         \<and> length m3 = 3
         \<and> status (m3 ! 0) = Some ''live''
         \<and> status (m3 ! 1) = Some ''postponed''
         \<and> status (m3 ! 2) = Some ''cancelled'')
   \<and> (case merge_provider_matches sample_lib [sample_scheduled]
            [sample_espn_finished, sample_espn_replay] [live_streamed]
            (Some [sample_sofa_live, sample_sofa_late]) of
         Inl e \<Rightarrow> None
       | Inr out \<Rightarrow> Some (map status out, map sources out)) =
       Some ([Some ''live'', Some ''postponed'', Some ''cancelled''],
             [[''goal'', ''espn'', ''sofascore'', ''streamed''], [''espn''], [''sofascore'']])
   \<and> map read_status [sample_scheduled, sample_espn_finished, sample_sofa_live,
        sample_espn_replay, sample_sofa_late, live_streamed] =
       [''scheduled'', ''finished'', ''live'', ''postponed'', ''cancelled'', ''live'']
   \<and> fold_status sample_scheduled [sample_espn_finished, sample_sofa_live] = Some ''live''
   \<and> status_priority ''abandoned'' = 0"
proof -
  let ?G = "[sample_scheduled]"
  let ?E = "[sample_espn_finished, sample_espn_replay]"
  let ?S = "[sample_sofa_live, sample_sofa_late]"
  let ?T = "[live_streamed]"
  let ?M1 = "[link_espn sample_lib
          \<lparr>base_index = 0, candidate_index = 0, link_similarity = 11 / 10, swapped = False\<rparr>
          (seed_row ''goal'' 0.72 sample_scheduled) sample_espn_finished,
        seed_row ''espn'' 0.68 sample_espn_replay]"
  let ?L1 = "match_records sample_lib (map (seed_row ''goal'' 0.72) ?G) ?E 180 0.76"
  from status_highest_priority[where lib = sample_lib and goal_rows = ?G and espn_rows = ?E
      and sofa_rows = ?S and streamed_rows = ?T and r = sample_scheduled
      and others = "[sample_espn_finished, sample_sofa_live]"]
  obtain m1 m3 where
    f1: "espn_stage sample_lib (map (seed_row ''goal'' 0.72) ?G) ?E = Inr m1"
    and f4: "merge_provider_matches sample_lib ?G ?E ?T (Some ?S) =
       Inr (sort_key (row_sort_key sample_lib) m3)"
    and f5: "length m1 = length ?G + length (unclaimed ?L1 ?E)"
    and f6: "length m3 = length m1
       + length (unclaimed (match_records sample_lib m1 ?S 180 0.78) ?S)"
    and f7: "\<forall>i<length ?G.
         status (m3 ! i) =
           fold_status (?G ! i)
             (linked_to ?L1 ?E i
              @ linked_to (match_records sample_lib m1 ?S 180 0.78) ?S i)"
    and f8: "\<forall>j<length (unclaimed ?L1 ?E).
         status (m3 ! (length ?G + j)) =
           fold_status (unclaimed ?L1 ?E ! j)
             (linked_to (match_records sample_lib m1 ?S 180 0.78) ?S (length ?G + j))"
    and f9: "\<forall>j<length (unclaimed (match_records sample_lib m1 ?S 180 0.78) ?S).
         status (m3 ! (length m1 + j)) =
           status (unclaimed (match_records sample_lib m1 ?S 180 0.78) ?S ! j)"
    and g6: "[sample_espn_finished, sample_sofa_live] \<noteq> [] \<longrightarrow>
        fold_status sample_scheduled [sample_espn_finished, sample_sofa_live] =
          Some (hd (filter (\<lambda>s. status_priority s =
                  Max (status_priority `
                         set (map read_status
                                (sample_scheduled # [sample_espn_finished, sample_sofa_live]))))
             (map read_status (sample_scheduled # [sample_espn_finished, sample_sofa_live]))))"
    and g8: "\<forall>s. s \<notin> set [''live'', ''finished'', ''postponed'', ''cancelled'', ''scheduled'',
                      ''unknown''] \<longrightarrow> status_priority s = 0"
    by blast
  from f1 have m1: "m1 = ?M1" unfolding sample_second_stage by simp
  from f5 f6 have len: "length m3 = 3" unfolding m1 sample_third_stage by simp
  have "(0::nat) < length ?G" by simp
  with f7 have "status (m3 ! 0) =
           fold_status (?G ! 0)
             (linked_to ?L1 ?E 0 @ linked_to (match_records sample_lib m1 ?S 180 0.78) ?S 0)"
    by blast
  then have s0: "status (m3 ! 0) = Some ''live''" unfolding m1 sample_third_stage .
  have "(0::nat) < length (unclaimed ?L1 ?E)" unfolding sample_third_stage by simp
  with f8 have "status (m3 ! (length ?G + 0)) =
           fold_status (unclaimed ?L1 ?E ! 0)
             (linked_to (match_records sample_lib m1 ?S 180 0.78) ?S (length ?G + 0))"
    by blast
  then have "status (m3 ! (length ?G + 0)) = Some ''postponed''"
    unfolding m1 sample_third_stage .
  then have s1: "status (m3 ! 1) = Some ''postponed''" by simp
  have "(0::nat) < length (unclaimed (match_records sample_lib m1 ?S 180 0.78) ?S)"
    unfolding m1 sample_third_stage by simp
  with f9 have "status (m3 ! (length m1 + 0)) =
           status (unclaimed (match_records sample_lib m1 ?S 180 0.78) ?S ! 0)"
    by blast
  then have "status (m3 ! (length m1 + 0)) = Some ''cancelled''"
    unfolding m1 sample_third_stage .
  then have s2: "status (m3 ! 2) = Some ''cancelled''" unfolding m1 by (simp add: numeral_2_eq_2)
  from f4 len s0 s1 s2 have a: "\<exists>m3. merge_provider_matches sample_lib ?G ?E ?T (Some ?S) =
             Inr (sort_key (row_sort_key sample_lib) m3)
         \<and> length m3 = 3 \<and> status (m3 ! 0) = Some ''live''
         \<and> status (m3 ! 1) = Some ''postponed''
         \<and> status (m3 ! 2) = Some ''cancelled''"
    by blast
  have b: "(case merge_provider_matches sample_lib ?G ?E ?T (Some ?S) of
         Inl e \<Rightarrow> None
       | Inr out \<Rightarrow> Some (map status out, map sources out)) =
       Some ([Some ''live'', Some ''postponed'', Some ''cancelled''],
             [[''goal'', ''espn'', ''sofascore'', ''streamed''], [''espn''], [''sofascore'']])
   \<and> map read_status [sample_scheduled, sample_espn_finished, sample_sofa_live,
        sample_espn_replay, sample_sofa_late, live_streamed] =
       [''scheduled'', ''finished'', ''live'', ''postponed'', ''cancelled'', ''live'']"
    by code_simp
  from g6 have c: "fold_status sample_scheduled [sample_espn_finished, sample_sofa_live] =
      Some ''live''"
    unfolding sample_first_highest by simp
  have "''abandoned'' \<notin> set [''live'', ''finished'', ''postponed'', ''cancelled'',
      ''scheduled'', ''unknown'']" by simp
  with g8 have d: "status_priority ''abandoned'' = 0" by blast
  from a b c d show ?thesis by blast
qed


lemma streamed_other_fields: "other_fields (link_streamed l r s) = other_fields r"
  by (simp add: link_streamed_def other_fields_def Let_def)

lemma streamed_no_url:
  "\<not> truthy (streamed_watch_url s) \<Longrightarrow> link_streamed l r s = r"
  by (simp add: link_streamed_def Let_def)

lemma streamed_url:
  "truthy (streamed_watch_url s) \<Longrightarrow>
     streamed_watch_url (link_streamed l r s) = streamed_watch_url s
     \<and> ''streamed'' \<in> set (sources (link_streamed l r s))
     \<and> map_of (external_ids (link_streamed l r s)) ''streamed'' = Some (provider_match_id s)"
  by (simp add: link_streamed_def Let_def update_conv')

text \<open>
  C10. The fourth stage returns a list of the same length. For every link it accepted
  whose streamed row has an absent or empty watch URL, the canonical row of the link is
  unchanged as a whole, as is every row without a link; where the watch URL is present it
  is attached and the streamed source is among the sources. In all cases every field of
  every row other than the watch URL, the sources and the external ids is unchanged.
\<close>

theorem streamed_stage_frame:
  "\<exists>out. streamed_stage lib merged streamed_rows = Inr out \<and> length out = length merged
     \<and> (\<forall>l\<in>set (match_records lib merged streamed_rows 180 0.80).
           \<not> truthy (streamed_watch_url (streamed_rows ! candidate_index l))
           \<longrightarrow> out ! base_index l = merged ! base_index l)
     \<and> (\<forall>l\<in>set (match_records lib merged streamed_rows 180 0.80).
           truthy (streamed_watch_url (streamed_rows ! candidate_index l))
           \<longrightarrow> streamed_watch_url (out ! base_index l)
                 = streamed_watch_url (streamed_rows ! candidate_index l)
               \<and> ''streamed'' \<in> set (sources (out ! base_index l)))
     \<and> (\<forall>i<length merged.
           i \<notin> base_index ` set (match_records lib merged streamed_rows 180 0.80)
           \<longrightarrow> out ! i = merged ! i)
     \<and> (\<forall>i<length merged. other_fields (out ! i) = other_fields (merged ! i))"
proof -
  let ?L = "match_records lib merged streamed_rows 180 0.80"
  from streamed_stage_result[of lib merged streamed_rows] obtain res where
    r: "streamed_stage lib merged streamed_rows = Inr res" "length res = length merged"
       "\<forall>l\<in>set ?L. res ! base_index l =
             link_streamed l (merged ! base_index l) (streamed_rows ! candidate_index l)"
       "\<forall>i. i \<notin> base_index ` set ?L \<longrightarrow> res ! i = merged ! i"
    by blast
  from r(1) have a: "apply_links link_streamed ?L merged streamed_rows = Inr res"
    by (simp add: streamed_stage_def Let_def)
  have 1: "\<forall>l\<in>set ?L. \<not> truthy (streamed_watch_url (streamed_rows ! candidate_index l))
           \<longrightarrow> res ! base_index l = merged ! base_index l"
    using r(3) by (simp add: streamed_no_url)
  have 2: "\<forall>l\<in>set ?L. truthy (streamed_watch_url (streamed_rows ! candidate_index l))
           \<longrightarrow> streamed_watch_url (res ! base_index l)
                 = streamed_watch_url (streamed_rows ! candidate_index l)
               \<and> ''streamed'' \<in> set (sources (res ! base_index l))"
    using r(3) streamed_url by simp
  have 3: "\<forall>i<length merged. other_fields (res ! i) = other_fields (merged ! i)"
  proof (intro allI impI)
    fix i assume i: "i < length merged"
    from apply_links_invariant[where R = "\<lambda>r. other_fields r = other_fields (merged ! i)", OF a i]
    show "other_fields (res ! i) = other_fields (merged ! i)"
      by (simp add: streamed_other_fields)
  qed
  from r 1 2 3 show ?thesis by blast
qed

theorem streamed_stage_frame_witness:
  "match_records sample_lib [sample_goal] [sample_streamed None] 180 0.80 =
     [\<lparr>base_index = 0, candidate_index = 0, link_similarity = 11 / 10, swapped = False\<rparr>]
   \<and> (\<exists>out. streamed_stage sample_lib [sample_goal] [sample_streamed None] = Inr out
         \<and> out ! 0 = sample_goal)"
proof -
  let ?l = "\<lparr>base_index = 0, candidate_index = 0, link_similarity = 11 / 10, swapped = False\<rparr>"
  have L: "match_records sample_lib [sample_goal] [sample_streamed None] 180 0.80 = [?l]"
    by code_simp
  have nt: "\<not> truthy (streamed_watch_url ([sample_streamed None] ! candidate_index ?l))"
    by code_simp
  from streamed_stage_frame[of sample_lib "[sample_goal]" "[sample_streamed None]"]
  obtain out where o: "streamed_stage sample_lib [sample_goal] [sample_streamed None] = Inr out"
    "\<forall>l\<in>set (match_records sample_lib [sample_goal] [sample_streamed None] 180 0.80).
        \<not> truthy (streamed_watch_url ([sample_streamed None] ! candidate_index l))
        \<longrightarrow> out ! base_index l = [sample_goal] ! base_index l"
    by blast
  from o(2) nt have "out ! base_index ?l = [sample_goal] ! base_index ?l"
    unfolding L by simp
  then have "out ! 0 = sample_goal" by simp
  with o(1) L show ?thesis by blast
qed

lemma espn_scores_conflict:
  "in_conflict r e \<Longrightarrow>
     verification (espn_scores r e) = Some ''score_conflict''
     \<and> confidence (espn_scores r e) = min (confidence r) 0.56
     \<and> discrepancies (espn_scores r e) = discrepancies r @
          [''Goal score '' @ fmt_score (home_score r) @ ''-'' @ fmt_score (away_score r)
             @ '' differs from ESPN '' @ fmt_score (home_score e) @ ''-''
             @ fmt_score (away_score e)]"
  by (auto simp: espn_scores_def Let_def in_conflict_def score_pair_def)

lemma espn_scores_no_conflict:
  "\<not> in_conflict r e \<Longrightarrow>
     discrepancies (espn_scores r e) = discrepancies r
     \<and> (verification (espn_scores r e) = Some ''score_conflict''
          \<longrightarrow> verification r = Some ''score_conflict'')"
  by (auto simp: espn_scores_def Let_def in_conflict_def)

lemma sofa_scores_conflict:
  "in_conflict r e \<Longrightarrow>
     verification (sofa_scores r e) = Some ''score_conflict''
     \<and> confidence (sofa_scores r e) = min (confidence r) 0.50
     \<and> discrepancies (sofa_scores r e) = discrepancies r @
          [''Merged score '' @ fmt_score (home_score r) @ ''-'' @ fmt_score (away_score r)
             @ '' differs from SofaScore '' @ fmt_score (home_score e) @ ''-''
             @ fmt_score (away_score e)]"
  by (auto simp: sofa_scores_def Let_def in_conflict_def score_pair_def)

lemma sofa_scores_no_conflict:
  "\<not> in_conflict r e \<Longrightarrow>
     discrepancies (sofa_scores r e) = discrepancies r
     \<and> (verification (sofa_scores r e) = Some ''score_conflict''
          \<longrightarrow> verification r = Some ''score_conflict'')"
  by (auto simp: sofa_scores_def Let_def in_conflict_def)

lemma espn_attach_conflict: "in_conflict (espn_attach lib l r e) e' = in_conflict r e'"
  by (simp add: in_conflict_def espn_attach_fields)

lemma sofa_attach_conflict: "in_conflict (sofa_attach lib r e) e' = in_conflict r e'"
  by (simp add: in_conflict_def sofa_attach_fields)

lemma espn_attach_scores:
  "home_score (espn_attach lib l r e) = home_score r"
  "away_score (espn_attach lib l r e) = away_score r"
  by (simp_all add: espn_attach_def)

lemma sofa_attach_scores:
  "home_score (sofa_attach lib r e) = home_score r"
  "away_score (sofa_attach lib r e) = away_score r"
  by (simp_all add: sofa_attach_def)

lemma link_espn_conflict:
  assumes "in_conflict r e"
  shows "verification (link_espn lib l r e) = Some ''score_conflict''
     \<and> confidence (link_espn lib l r e) \<le> 0.56
     \<and> discrepancies (link_espn lib l r e) = discrepancies r @
          [''Goal score '' @ fmt_score (home_score r) @ ''-'' @ fmt_score (away_score r)
             @ '' differs from ESPN '' @ fmt_score (home_score e) @ ''-''
             @ fmt_score (away_score e)]"
proof -
  from assms have "in_conflict (espn_attach lib l r e) e" by (simp add: espn_attach_conflict)
  from espn_scores_conflict[OF this] show ?thesis
    by (simp add: link_espn_def espn_fill_fields espn_attach_fields espn_attach_scores)
qed

lemma link_espn_no_conflict:
  assumes "\<not> in_conflict r e"
  shows "discrepancies (link_espn lib l r e) = discrepancies r
     \<and> (verification (link_espn lib l r e) = Some ''score_conflict''
          \<longrightarrow> verification r = Some ''score_conflict'')"
proof -
  from assms have "\<not> in_conflict (espn_attach lib l r e) e" by (simp add: espn_attach_conflict)
  from espn_scores_no_conflict[OF this] show ?thesis
    by (simp add: link_espn_def espn_fill_fields espn_attach_fields)
qed

lemma link_sofa_conflict:
  assumes "in_conflict r e"
  shows "verification (link_sofa lib l r e) = Some ''score_conflict''
     \<and> confidence (link_sofa lib l r e) \<le> 0.50
     \<and> discrepancies (link_sofa lib l r e) = discrepancies r @
          [''Merged score '' @ fmt_score (home_score r) @ ''-'' @ fmt_score (away_score r)
             @ '' differs from SofaScore '' @ fmt_score (home_score e) @ ''-''
             @ fmt_score (away_score e)]"
proof -
  from assms have "in_conflict (sofa_attach lib r e) e" by (simp add: sofa_attach_conflict)
  from sofa_scores_conflict[OF this] show ?thesis
    by (simp add: link_sofa_def sofa_fill_fields sofa_attach_fields sofa_attach_scores)
qed

lemma link_sofa_no_conflict:
  assumes "\<not> in_conflict r e"
  shows "discrepancies (link_sofa lib l r e) = discrepancies r
     \<and> (verification (link_sofa lib l r e) = Some ''score_conflict''
          \<longrightarrow> verification r = Some ''score_conflict'')"
proof -
  from assms have "\<not> in_conflict (sofa_attach lib r e) e" by (simp add: sofa_attach_conflict)
  from sofa_scores_no_conflict[OF this] show ?thesis
    by (simp add: link_sofa_def sofa_fill_fields sofa_attach_fields)
qed

lemma fmt_digits: "fmt_score (Some 2) = ''2''" "fmt_score (Some 1) = ''1''"
  by code_simp+

lemma match_records_empty: "match_records lib merged [] mmd mins = []"
proof -
  have "\<And>bi used links. link_rows lib mmd mins bi merged [] used links = links"
  proof -
    fix bi used links
    show "link_rows lib mmd mins bi merged [] used links = links"
      by (induction merged arbitrary: bi) simp_all
  qed
  then show ?thesis by (simp add: match_records_def)
qed

lemma merge_single_pair:
  assumes sc: "score_candidate lib 180 (seed_row ''goal'' 0.72 g) e = Some (s, sw)"
    and ok: "s \<ge> 0.76"
  shows "merge_provider_matches lib [g] [e] [] None =
           Inr [link_espn lib \<lparr>base_index = 0, candidate_index = 0, link_similarity = s,
                                swapped = sw\<rparr> (seed_row ''goal'' 0.72 g) e]"
proof -
  let ?g = "seed_row ''goal'' 0.72 g"
  let ?l = "\<lparr>base_index = 0, candidate_index = 0, link_similarity = s, swapped = sw\<rparr>"
  have L: "match_records lib [?g] [e] 180 0.76 = [?l]"
    using sc ok by (simp add: match_records_def)
  have e1: "espn_stage lib [?g] [e] = Inr [link_espn lib ?l ?g e]"
    unfolding espn_stage_def Let_def L by (simp add: unlinked_rows_def)
  have e2: "\<And>x. sofa_stage lib [x] [] = Inr [x]"
    unfolding sofa_stage_def Let_def match_records_empty by (simp add: unlinked_rows_def)
  have e3: "\<And>x. streamed_stage lib [x] [] = Inr [x]"
    unfolding streamed_stage_def Let_def match_records_empty by simp
  show ?thesis
    unfolding merge_provider_matches_def Let_def list.map e1 by (simp add: e2 e3)
qed

text \<open>
  C6. Merging one anchor row with score 2-1 and one row of the second source with score 1-1
  that the linker accepts yields one canonical row with verification \<^verbatim>\<open>score_conflict\<close>,
  a confidence of at most 0.56 and, the anchor row having no discrepancy before, exactly
  one discrepancy, which names both pairs. In general, in the second and in the third
  stage, a link whose two rows have fully known pairs that differ marks the conflict, caps
  the confidence (0.56, 0.50) and appends one discrepancy; any other link appends none and
  does not mark a conflict that was not there before.
\<close>

theorem score_conflict_marking:
  "(in_conflict r e \<longrightarrow>
      verification (link_espn lib l r e) = Some ''score_conflict''
      \<and> confidence (link_espn lib l r e) \<le> 0.56
      \<and> discrepancies (link_espn lib l r e) = discrepancies r @
          [''Goal score '' @ fmt_score (home_score r) @ ''-'' @ fmt_score (away_score r)
             @ '' differs from ESPN '' @ fmt_score (home_score e) @ ''-''
             @ fmt_score (away_score e)])
   \<and> (\<not> in_conflict r e \<longrightarrow>
        discrepancies (link_espn lib l r e) = discrepancies r
        \<and> (verification (link_espn lib l r e) = Some ''score_conflict''
             \<longrightarrow> verification r = Some ''score_conflict''))
   \<and> (in_conflict r e \<longrightarrow>
      verification (link_sofa lib l r e) = Some ''score_conflict''
      \<and> confidence (link_sofa lib l r e) \<le> 0.50
      \<and> discrepancies (link_sofa lib l r e) = discrepancies r @
          [''Merged score '' @ fmt_score (home_score r) @ ''-'' @ fmt_score (away_score r)
             @ '' differs from SofaScore '' @ fmt_score (home_score e) @ ''-''
             @ fmt_score (away_score e)])
   \<and> (\<not> in_conflict r e \<longrightarrow>
        discrepancies (link_sofa lib l r e) = discrepancies r
        \<and> (verification (link_sofa lib l r e) = Some ''score_conflict''
             \<longrightarrow> verification r = Some ''score_conflict''))
   \<and> (home_score g = Some 2 \<and> away_score g = Some 1
        \<and> home_score e = Some 1 \<and> away_score e = Some 1 \<and> discrepancies g = []
        \<and> score_candidate lib 180 (seed_row ''goal'' 0.72 g) e = Some (s, sw) \<and> s \<ge> 0.76
      \<longrightarrow> (\<exists>merged_row. merge_provider_matches lib [g] [e] [] None = Inr [merged_row]
             \<and> verification merged_row = Some ''score_conflict''
             \<and> confidence merged_row \<le> 0.56
             \<and> discrepancies merged_row = [''Goal score 2-1 differs from ESPN 1-1'']))"
proof -
  have p: "home_score g = Some 2 \<and> away_score g = Some 1
        \<and> home_score e = Some 1 \<and> away_score e = Some 1 \<and> discrepancies g = []
        \<and> score_candidate lib 180 (seed_row ''goal'' 0.72 g) e = Some (s, sw) \<and> s \<ge> 0.76
      \<longrightarrow> (\<exists>merged_row. merge_provider_matches lib [g] [e] [] None = Inr [merged_row]
             \<and> verification merged_row = Some ''score_conflict''
             \<and> confidence merged_row \<le> 0.56
             \<and> discrepancies merged_row = [''Goal score 2-1 differs from ESPN 1-1''])"
  proof
    assume h: "home_score g = Some 2 \<and> away_score g = Some 1
        \<and> home_score e = Some 1 \<and> away_score e = Some 1 \<and> discrepancies g = []
        \<and> score_candidate lib 180 (seed_row ''goal'' 0.72 g) e = Some (s, sw) \<and> s \<ge> 0.76"
    let ?g = "seed_row ''goal'' 0.72 g"
    let ?l = "\<lparr>base_index = 0, candidate_index = 0, link_similarity = s, swapped = sw\<rparr>"
    from h have sc: "score_candidate lib 180 ?g e = Some (s, sw)" and ok: "s \<ge> 0.76" by simp_all
    from h have c: "in_conflict ?g e"
      by (simp add: in_conflict_def score_pair_def none_in_def seed_row_def)
    from h have f: "home_score ?g = Some 2" "away_score ?g = Some 1" "discrepancies ?g = []"
      by (simp_all add: seed_row_def)
    from link_espn_conflict[OF c, of lib ?l] h f
    have "verification (link_espn lib ?l ?g e) = Some ''score_conflict''
        \<and> confidence (link_espn lib ?l ?g e) \<le> 0.56
        \<and> discrepancies (link_espn lib ?l ?g e) = [''Goal score 2-1 differs from ESPN 1-1'']"
      by (simp add: fmt_digits)
    with merge_single_pair[OF sc ok]
    show "\<exists>merged_row. merge_provider_matches lib [g] [e] [] None = Inr [merged_row]
             \<and> verification merged_row = Some ''score_conflict''
             \<and> confidence merged_row \<le> 0.56
             \<and> discrepancies merged_row = [''Goal score 2-1 differs from ESPN 1-1'']"
      by blast
  qed
  from p link_espn_conflict[of r e lib l] link_espn_no_conflict[of r e lib l]
    link_sofa_conflict[of r e lib l] link_sofa_no_conflict[of r e lib l]
  show ?thesis by blast
qed

theorem score_conflict_marking_witness:
  "in_conflict sample_goal sample_espn
   \<and> (\<exists>merged_row.
        merge_provider_matches sample_lib [sample_row ''goal'' ''goal-1'' (Some 2) (Some 1)]
          [sample_espn] [] None = Inr [merged_row]
        \<and> verification merged_row = Some ''score_conflict''
        \<and> confidence merged_row \<le> 0.56
        \<and> discrepancies merged_row = [''Goal score 2-1 differs from ESPN 1-1''])"
proof -
  let ?g = "sample_row ''goal'' ''goal-1'' (Some 2) (Some 1)"
  have c: "in_conflict sample_goal sample_espn" by code_simp
  have h: "home_score ?g = Some 2 \<and> away_score ?g = Some 1
        \<and> home_score sample_espn = Some 1 \<and> away_score sample_espn = Some 1
        \<and> discrepancies ?g = []
        \<and> score_candidate sample_lib 180 (seed_row ''goal'' 0.72 ?g) sample_espn
            = Some (11 / 10, False)
        \<and> (11 / 10 :: real) \<ge> 0.76"
    by code_simp
  from score_conflict_marking[of sample_goal sample_espn sample_lib
      "\<lparr>base_index = 0, candidate_index = 0, link_similarity = 11 / 10, swapped = False\<rparr>"
      ?g "11 / 10" False] h c
  show ?thesis by blast
qed













end
